theory Spec2Isabelle
  imports Main "HOL-Library.AList"
begin

section \<open>Python values and errors\<close>

text \<open>
  The exceptions that the modelled functions of \<^verbatim>\<open>nomad/config/models.py\<close> can raise.
  \<open>AttributeError\<close> is what \<^verbatim>\<open>None.keys()\<close> raises, \<open>TypeError\<close> is what
  \<^verbatim>\<open>key in None\<close> and \<^verbatim>\<open>None[key]\<close> raise, \<open>KeyError\<close> is a missing dictionary key.
\<close>

datatype py_error = AttributeError | TypeError | KeyError

text \<open>
  A Python \<^verbatim>\<open>Dict[str, Any]\<close> is an association list in insertion order; the values are
  of an arbitrary type \<open>'v\<close>. A field of type \<^verbatim>\<open>Optional[...]\<close> is an \<open>option\<close>.
\<close>

type_synonym 'v dict = "(string \<times> 'v) list"

text \<open>\<^verbatim>\<open>list(d.keys())\<close>, \<^verbatim>\<open>key in d\<close> and \<^verbatim>\<open>d[key]\<close> on a value that may be \<^verbatim>\<open>None\<close>.\<close>

fun dict_keys :: "'v dict option \<Rightarrow> py_error + string list" where
  "dict_keys None = Inl AttributeError"
| "dict_keys (Some d) = Inr (map fst d)"

fun dict_contains :: "'v dict option \<Rightarrow> string \<Rightarrow> py_error + bool" where
  "dict_contains None key = Inl TypeError"
| "dict_contains (Some d) key = Inr (key \<in> set (map fst d))"

fun dict_getitem :: "'v dict option \<Rightarrow> string \<Rightarrow> py_error + 'v" where
  "dict_getitem None key = Inl TypeError"
| "dict_getitem (Some d) key = (case map_of d key of None \<Rightarrow> Inl KeyError | Some v \<Rightarrow> Inr v)"

section \<open>OptionsBase\<close>

text \<open>
  \<^verbatim>\<open>class OptionsBase\<close>: the two optional lists. The field \<^verbatim>\<open>include\<close> is written
  \<open>include'\<close>, since \<open>include\<close> is a keyword of the theory language.
\<close>

record OptionsBase =
  include' :: "string list option"
  exclude :: "string list option"

text \<open>
  The value of the local variable \<^verbatim>\<open>excluded\<close> of \<^verbatim>\<open>OptionsBase.filter\<close>:
  Python's \<^verbatim>\<open>a and b\<close> is \<^verbatim>\<open>a\<close> itself when \<^verbatim>\<open>a\<close> is falsy, so the variable holds
  \<^verbatim>\<open>None\<close>, the empty list, or a boolean.
\<close>

datatype excluded_value = ExNone | ExList "string list" | ExBool bool

fun truthy :: "excluded_value \<Rightarrow> bool" where
  "truthy ExNone = False"
| "truthy (ExList xs) = (xs \<noteq> [])"
| "truthy (ExBool b) = b"

fun list_value :: "string list option \<Rightarrow> excluded_value" where
  "list_value None = ExNone"
| "list_value (Some xs) = ExList xs"

text \<open>\<^verbatim>\<open>value in xs\<close> where the test is only evaluated for a truthy (hence non-\<^verbatim>\<open>None\<close>) list.\<close>

fun py_in :: "string \<Rightarrow> string list option \<Rightarrow> bool" where
  "py_in v None = False"
| "py_in v (Some xs) = (v \<in> set xs)"

text \<open>
  \<^verbatim>\<open>
  def filter(self, value: str) -> bool:
      included = not self.include or value in self.include or '*' in self.include
      excluded = self.exclude and (value in self.exclude or '*' in self.exclude)
      return included and not excluded
  \<close>
\<close>

definition OptionsBase_filter :: "'a OptionsBase_scheme \<Rightarrow> string \<Rightarrow> bool" where
  "OptionsBase_filter self v =
    (let included =
           (if \<not> truthy (list_value (include' self)) then True
            else if py_in v (include' self) then True
            else py_in ''*'' (include' self));
         excluded =
           (if truthy (list_value (exclude self))
            then ExBool (if py_in v (exclude self) then True else py_in ''*'' (exclude self))
            else list_value (exclude self))
     in if included then \<not> truthy excluded else False)"

section \<open>Options\<close>

record 'v Options = OptionsBase +
  options :: "'v dict option"

text \<open>
  \<^verbatim>\<open>
  def filtered_keys(self) -> List[str]:
      if self.include is None or '*' in self.include:
          include = list(self.options.keys())
      else:
          include = self.include
      if self.exclude is not None and '*' in self.exclude:
          return []
      else:
          exclude = self.exclude or []
      return [key for key in include if key not in exclude]
  \<close>
  The first statement is modelled by \<open>starting_list\<close>; it raises when \<^verbatim>\<open>self.options\<close>
  is \<^verbatim>\<open>None\<close> and the keys of the options are asked for.
\<close>

definition starting_list :: "('v, 'a) Options_scheme \<Rightarrow> py_error + string list" where
  "starting_list self =
    (case include' self of
       None \<Rightarrow> dict_keys (options self)
     | Some inc \<Rightarrow> if ''*'' \<in> set inc then dict_keys (options self) else Inr inc)"

fun or_empty :: "string list option \<Rightarrow> string list" where
  "or_empty None = []"
| "or_empty (Some xs) = (if xs = [] then [] else xs)"

definition filtered_keys :: "('v, 'a) Options_scheme \<Rightarrow> py_error + string list" where
  "filtered_keys self =
    (case starting_list self of
       Inl e \<Rightarrow> Inl e
     | Inr inc \<Rightarrow>
         if exclude self \<noteq> None \<and> py_in ''*'' (exclude self) then Inr []
         else Inr [key \<leftarrow> inc. key \<notin> set (or_empty (exclude self))])"

text \<open>
  The comprehension \<^verbatim>\<open>[self.options[key] for key in keys if key in self.options]\<close>, one
  key at a time: the test \<^verbatim>\<open>key in self.options\<close> and the lookup can raise.
\<close>

fun values_of :: "'v dict option \<Rightarrow> string list \<Rightarrow> py_error + 'v list" where
  "values_of opts [] = Inr []"
| "values_of opts (key # keys) =
    (case dict_contains opts key of
       Inl e \<Rightarrow> Inl e
     | Inr present \<Rightarrow>
         if present then
           (case dict_getitem opts key of
              Inl e \<Rightarrow> Inl e
            | Inr v \<Rightarrow> (case values_of opts keys of Inl e \<Rightarrow> Inl e | Inr vs \<Rightarrow> Inr (v # vs)))
         else values_of opts keys)"

fun items_of :: "'v dict option \<Rightarrow> string list \<Rightarrow> py_error + (string \<times> 'v) list" where
  "items_of opts [] = Inr []"
| "items_of opts (key # keys) =
    (case dict_contains opts key of
       Inl e \<Rightarrow> Inl e
     | Inr present \<Rightarrow>
         if present then
           (case dict_getitem opts key of
              Inl e \<Rightarrow> Inl e
            | Inr v \<Rightarrow> (case items_of opts keys of Inl e \<Rightarrow> Inl e | Inr kvs \<Rightarrow> Inr ((key, v) # kvs)))
         else items_of opts keys)"

definition filtered_values :: "('v, 'a) Options_scheme \<Rightarrow> py_error + 'v list" where
  "filtered_values self =
    (case filtered_keys self of Inl e \<Rightarrow> Inl e | Inr keys \<Rightarrow> values_of (options self) keys)"

definition filtered_items :: "('v, 'a) Options_scheme \<Rightarrow> py_error + (string \<times> 'v) list" where
  "filtered_items self =
    (case filtered_keys self of Inl e \<Rightarrow> Inl e | Inr keys \<Rightarrow> items_of (options self) keys)"

text \<open>A dangling name is a key that is not a key of the options.\<close>

definition dangling :: "'v dict \<Rightarrow> string \<Rightarrow> bool" where
  "dangling d key = (key \<notin> set (map fst d))"

section \<open>OptionsGlob\<close>

text \<open>
  \<^verbatim>\<open>class OptionsGlob\<close> (and its subclass \<^verbatim>\<open>Filters\<close>) declares the two optional lists of
  patterns and nothing else; the fields are written \<open>include_glob\<close> and \<open>exclude_glob\<close> to
  keep them apart from those of \<open>OptionsBase\<close>. The function that applies the patterns to
  a candidate is not in \<^verbatim>\<open>nomad/config/models.py\<close>.
\<close>

record OptionsGlob =
  include_glob :: "string list option"
  exclude_glob :: "string list option"

text \<open>
  Modelled from the spec: the shell-style matching of a candidate against a pattern, which
  the source file does not contain. \<^verbatim>\<open>*\<close> matches any run of characters, \<^verbatim>\<open>?\<close> matches one
  character, and a character class in brackets matches one character of the class
  (\<^verbatim>\<open>[!...]\<close> one character outside it, \<^verbatim>\<open>a-z\<close> a range); a \<^verbatim>\<open>[\<close> that no \<^verbatim>\<open>]\<close> closes
  stands for itself. A pattern is first cut into tokens.
\<close>

text \<open>Modelled from the spec: the tokens \<^verbatim>\<open>*\<close>, \<^verbatim>\<open>?\<close>, a literal character and a class.\<close>

datatype glob_token = Star | Any_char | Lit char | Class bool string

text \<open>
  Modelled from the spec: the body of a character class, up to the closing bracket, and the
  rest of the pattern; a \<^verbatim>\<open>]\<close> that comes first belongs to the class.
\<close>

fun scan_class :: "string \<Rightarrow> string \<Rightarrow> (string \<times> string) option" where
  "scan_class body [] = None"
| "scan_class body (c # cs) =
    (if c = CHR '']'' \<and> body \<noteq> [] then Some (rev body, cs) else scan_class (c # body) cs)"

text \<open>Modelled from the spec: a character class, negated when it starts with \<^verbatim>\<open>!\<close>.\<close>

definition parse_class :: "string \<Rightarrow> (bool \<times> string \<times> string) option" where
  "parse_class cs =
    (if take 1 cs = ''!'' then map_option (Pair True) (scan_class [] (drop 1 cs))
     else map_option (Pair False) (scan_class [] cs))"

lemma scan_class_shorter: "scan_class body cs = Some (b, rest) \<Longrightarrow> length rest < length cs"
  by (induction cs arbitrary: body) (auto split: if_splits intro: less_SucI)

lemma parse_class_shorter:
  "parse_class cs = Some (negated, body, rest) \<Longrightarrow> length rest < length cs"
  by (auto simp: parse_class_def split: if_splits dest!: scan_class_shorter)

text \<open>Modelled from the spec: the tokens of a pattern.\<close>

function parse_glob :: "string \<Rightarrow> glob_token list" where
  "parse_glob [] = []"
| "parse_glob (c # cs) =
    (if c = CHR ''*'' then Star # parse_glob cs
     else if c = CHR ''?'' then Any_char # parse_glob cs
     else if c = CHR ''['' then
       (case parse_class cs of
          Some (negated, body, rest) \<Rightarrow> Class negated body # parse_glob rest
        | None \<Rightarrow> Lit c # parse_glob cs)
     else Lit c # parse_glob cs)"
  by pat_completeness auto
termination
  by (relation "measure length") (auto dest!: parse_class_shorter)

text \<open>Modelled from the spec: the characters of a class, \<^verbatim>\<open>lo-hi\<close> being a range.\<close>

fun class_member :: "char \<Rightarrow> string \<Rightarrow> bool" where
  "class_member c [] = False"
| "class_member c [x] = (c = x)"
| "class_member c [x, y] = (c = x \<or> c = y)"
| "class_member c (lo # m # hi # rest) =
    (if m = CHR ''-''
     then ((of_char lo :: nat) \<le> of_char c \<and> (of_char c :: nat) \<le> of_char hi)
          \<or> class_member c rest
     else c = lo \<or> class_member c (m # hi # rest))"

text \<open>Modelled from the spec: the characters that a token other than \<^verbatim>\<open>*\<close> matches.\<close>

fun token_matches :: "glob_token \<Rightarrow> char \<Rightarrow> bool" where
  "token_matches Star c = True"
| "token_matches Any_char c = True"
| "token_matches (Lit x) c = (x = c)"
| "token_matches (Class negated body) c = (class_member c body \<noteq> negated)"

text \<open>
  Modelled from the spec: a sequence of tokens against a candidate; \<^verbatim>\<open>*\<close> matches any run
  of characters, every other token exactly one character.
\<close>

fun match_tokens :: "glob_token list \<Rightarrow> string \<Rightarrow> bool" where
  "match_tokens [] s = (s = [])"
| "match_tokens (Star # ts) [] = match_tokens ts []"
| "match_tokens (Star # ts) (c # s) = (match_tokens ts (c # s) \<or> match_tokens (Star # ts) s)"
| "match_tokens (t # ts) [] = False"
| "match_tokens (t # ts) (c # s) = (token_matches t c \<and> match_tokens ts s)"

text \<open>Modelled from the spec: ``the value matches the pattern''.\<close>

definition glob_match :: "string \<Rightarrow> string \<Rightarrow> bool" where
  "glob_match pattern v = match_tokens (parse_glob pattern) v"

text \<open>Modelled from the spec: ``the value matches at least one pattern in the list''.\<close>

definition matches_any :: "string list \<Rightarrow> string \<Rightarrow> bool" where
  "matches_any patterns v = list_ex (\<lambda>pattern. glob_match pattern v) patterns"

text \<open>
  Modelled from the spec: the glob variant of the filter, which the source file does not
  contain. It is the exact-match contract with each membership test replaced by
  ``the value matches at least one pattern of the list'':
  \<open>included := include is empty/absent OR value matches a pattern of include\<close>,
  \<open>excluded := exclude is non-empty AND value matches a pattern of exclude\<close>,
  and the result is \<open>included AND NOT excluded\<close>.
\<close>

definition OptionsGlob_filter :: "'a OptionsGlob_scheme \<Rightarrow> string \<Rightarrow> bool" where
  "OptionsGlob_filter self v =
    (let included = (or_empty (include_glob self) = []
                     \<or> matches_any (or_empty (include_glob self)) v);
         excluded = (or_empty (exclude_glob self) \<noteq> []
                     \<and> matches_any (or_empty (exclude_glob self)) v)
     in included \<and> \<not> excluded)"

section \<open>WidgetScatterPlot\<close>

text \<open>
  The argument of a \<^verbatim>\<open>root_validator(pre=True)\<close> is the raw input of the model, before
  any validation: a dictionary from field names to plain data. Plain data is modelled by
  value, since the validator neither compares nor shares objects.
\<close>

datatype raw =
    RNone | RBool bool | RInt int | RStr string
  | RList "raw list" | RDict "(string \<times> raw) list"

text \<open>\<^verbatim>\<open>values.get(key)\<close>: the value of the key, \<^verbatim>\<open>None\<close> when the key is missing.\<close>

definition dict_get :: "(string \<times> raw) list \<Rightarrow> string \<Rightarrow> raw" where
  "dict_get values key = (case map_of values key of None \<Rightarrow> RNone | Some v \<Rightarrow> v)"

text \<open>\<^verbatim>\<open>isinstance(v, str)\<close>\<close>

fun isinstance_str :: "raw \<Rightarrow> bool" where
  "isinstance_str (RStr s) = True"
| "isinstance_str v = False"

text \<open>
  \<^verbatim>\<open>
  @root_validator(pre=True)
  def backwards_compatibility(cls, values):
      color = values.get('color')
      if color is not None:
          values['markers'] = {'color': {'quantity': color}}
          del values['color']
      x = values.get('x')
      if isinstance(x, str):
          values['x'] = {'quantity': x}
      y = values.get('y')
      if isinstance(y, str):
          values['y'] = {'quantity': y}
      return values
  \<close>
  \<^verbatim>\<open>values[key] = v\<close> is \<open>AList.update\<close> (the key keeps its place, a new key goes to the
  end) and \<^verbatim>\<open>del values[key]\<close> is \<open>AList.delete\<close>; the deleted key is always present.
\<close>

definition backwards_compatibility :: "(string \<times> raw) list \<Rightarrow> (string \<times> raw) list" where
  "backwards_compatibility values =
    (let color = dict_get values ''color'';
         values1 = (if color \<noteq> RNone
                    then AList.delete ''color''
                           (AList.update ''markers''
                              (RDict [(''color'', RDict [(''quantity'', color)])]) values)
                    else values);
         x = dict_get values1 ''x'';
         values2 = (if isinstance_str x
                    then AList.update ''x'' (RDict [(''quantity'', x)]) values1
                    else values1);
         y = dict_get values2 ''y'';
         values3 = (if isinstance_str y
                    then AList.update ''y'' (RDict [(''quantity'', y)]) values2
                    else values2)
     in values3)"

section \<open>NomadSettings\<close>

text \<open>
  \<^verbatim>\<open>customize\<close> copies an object and assigns to the attributes of the copy, and two of its
  properties are about which objects are shared. Objects therefore live in an explicit
  store: a heap is the list of all objects, the address of an object is its index, and a
  value is either an immutable atom or a reference to an object.
\<close>

datatype pyval = PyNone | PyBool bool | PyInt int | PyStr string | Ref nat

text \<open>
  A pydantic model is the list of the field names declared on its class
  (\<^verbatim>\<open>__fields__.keys()\<close>), the list of the names of the private attributes declared on
  its class (\<^verbatim>\<open>__private_attributes__\<close>), and the dictionary of its values: the values of
  the fields and whatever else \<^verbatim>\<open>__dict__\<close> holds, together with the values of the private
  attributes (which pydantic keeps in slots; their names start with an underscore and so
  differ from every field name). Dictionaries and lists are the other objects that a
  setting can hold.
\<close>

datatype pyobj =
    PyModel "string list" "string list" "(string \<times> pyval) list"
  | PyDict "(string \<times> pyval) list"
  | PyList "pyval list"

type_synonym heap = "pyobj list"

definition deref :: "heap \<Rightarrow> nat \<Rightarrow> pyobj option" where
  "deref h a = (if a < length h then Some (h ! a) else None)"

text \<open>
  \<^verbatim>\<open>self.copy(deep=True)\<close> of pydantic builds a new model of the same class from
  \<^verbatim>\<open>copy.deepcopy\<close> of the values: every object that \<^verbatim>\<open>self\<close> reaches is cloned once (the
  memo of \<^verbatim>\<open>deepcopy\<close> keeps shared and cyclic references shared and cyclic in the copy),
  and atoms are kept. The model clones every object of the heap, the clone of the object
  at address \<open>a\<close> being allocated at address \<open>length h + a\<close> with each of its references
  redirected to the clone of its target; the clones of objects that \<^verbatim>\<open>self\<close> does not reach
  are objects to which nothing refers. The set \<^verbatim>\<open>__fields_set__\<close> of a model, which
  \<^verbatim>\<open>customize\<close> does not read, is left out.
\<close>

fun shift_val :: "nat \<Rightarrow> pyval \<Rightarrow> pyval" where
  "shift_val n (Ref a) = Ref (n + a)"
| "shift_val n v = v"

fun shift_obj :: "nat \<Rightarrow> pyobj \<Rightarrow> pyobj" where
  "shift_obj n (PyModel fs ps d) = PyModel fs ps (map (\<lambda>(k, v). (k, shift_val n v)) d)"
| "shift_obj n (PyDict d) = PyDict (map (\<lambda>(k, v). (k, shift_val n v)) d)"
| "shift_obj n (PyList xs) = PyList (map (shift_val n) xs)"

definition copy_deep :: "heap \<Rightarrow> nat \<Rightarrow> heap \<times> nat" where
  "copy_deep h self = (h @ map (shift_obj (length h)) h, length h + self)"

text \<open>
  The names that pydantic's \<^verbatim>\<open>BaseModel.__setattr__\<close> hands to \<^verbatim>\<open>object.__setattr__\<close>
  without looking at the fields of the class (\<^verbatim>\<open>DUNDER_ATTRIBUTES\<close> of \<^verbatim>\<open>pydantic/utils.py\<close>,
  release 1.10.26).
\<close>

definition DUNDER_ATTRIBUTES :: "string list" where
  "DUNDER_ATTRIBUTES =
    [''__annotations__'', ''__classcell__'', ''__doc__'', ''__module__'', ''__orig_bases__'',
     ''__orig_class__'', ''__qualname__'', ''__firstlineno__'', ''__static_attributes__'',
     ''__classdictcell__'']"

text \<open>
  \<^verbatim>\<open>getattr(obj, name)\<close> and \<^verbatim>\<open>setattr(obj, name, value)\<close> on a model; \<open>None\<close> stands for
  the exception. With the configuration of \<^verbatim>\<open>NomadSettings\<close> (extra fields are not
  allowed on assignment, models are mutable, no field is final, assignments are not
  validated) pydantic's \<^verbatim>\<open>__setattr__\<close> is
  \<^verbatim>\<open>
  def __setattr__(self, name, value):
      if name in self.__private_attributes__ or name in DUNDER_ATTRIBUTES:
          return object_setattr(self, name, value)
      if self.__config__.extra is not Extra.allow and name not in self.__fields__:
          raise ValueError(...)
      ...
      self.__dict__[name] = value
  \<close>
  so that a private attribute and a name of \<^verbatim>\<open>DUNDER_ATTRIBUTES\<close> are stored whether or not
  they are fields, and any other name that is not a field raises \<^verbatim>\<open>ValueError\<close>.
\<close>

definition getattr :: "heap \<Rightarrow> nat \<Rightarrow> string \<Rightarrow> pyval option" where
  "getattr h a name =
    (case deref h a of Some (PyModel fs ps d) \<Rightarrow> map_of d name | _ \<Rightarrow> None)"

definition setattr :: "heap \<Rightarrow> nat \<Rightarrow> string \<Rightarrow> pyval \<Rightarrow> heap option" where
  "setattr h a name v =
    (case deref h a of
       Some (PyModel fs ps d) \<Rightarrow>
         if name \<in> set ps \<or> name \<in> set DUNDER_ATTRIBUTES
         then Some (h[a := PyModel fs ps (AList.update name v d)])
         else if name \<notin> set fs then None
         else Some (h[a := PyModel fs ps (AList.update name v d)])
     | _ \<Rightarrow> None)"

text \<open>The names that \<^verbatim>\<open>setattr\<close> accepts on a model with the fields \<open>fs\<close> and the private
  attributes \<open>ps\<close>.\<close>

definition assignable :: "string list \<Rightarrow> string list \<Rightarrow> string \<Rightarrow> bool" where
  "assignable fs ps name =
    (name \<in> set fs \<or> name \<in> set ps \<or> name \<in> set DUNDER_ATTRIBUTES)"

text \<open>The truth value of \<^verbatim>\<open>if custom_settings:\<close>; a model is always true.\<close>

definition truthy_val :: "heap \<Rightarrow> pyval \<Rightarrow> bool" where
  "truthy_val h v =
    (case v of
       PyNone \<Rightarrow> False
     | PyBool b \<Rightarrow> b
     | PyInt i \<Rightarrow> i \<noteq> 0
     | PyStr s \<Rightarrow> s \<noteq> []
     | Ref a \<Rightarrow>
         (case deref h a of
            Some (PyModel fs ps d) \<Rightarrow> True
          | Some (PyDict d) \<Rightarrow> d \<noteq> []
          | Some (PyList xs) \<Rightarrow> xs \<noteq> []
          | None \<Rightarrow> False))"

text \<open>
  The two messages of the \<^verbatim>\<open>AssertionError\<close> that \<^verbatim>\<open>customize\<close> raises:
  \<^verbatim>\<open>f'Invalid setting: {field_name}'\<close> and \<^verbatim>\<open>f'Invalid setting: ({key}: {value})'\<close>.
\<close>

datatype assertion_error = Invalid_setting string | Invalid_setting_item string pyval

text \<open>
  \<^verbatim>\<open>
  for field_name in custom_settings.__fields__.keys():
      try:
          setattr(rv, field_name, getattr(custom_settings, field_name))
      except Exception:
          raise AssertionError(f'Invalid setting: {field_name}')
  \<close>
\<close>

fun copy_fields :: "heap \<Rightarrow> nat \<Rightarrow> nat \<Rightarrow> string list \<Rightarrow> heap \<times> assertion_error option" where
  "copy_fields h rv custom_settings [] = (h, None)"
| "copy_fields h rv custom_settings (field_name # rest) =
    (case getattr h custom_settings field_name of
       None \<Rightarrow> (h, Some (Invalid_setting field_name))
     | Some v \<Rightarrow>
         (case setattr h rv field_name v of
            None \<Rightarrow> (h, Some (Invalid_setting field_name))
          | Some h' \<Rightarrow> copy_fields h' rv custom_settings rest))"

text \<open>
  \<^verbatim>\<open>
  for key, value in custom_settings.items():
      if value is None:
          continue
      try:
          setattr(rv, key, value)
      except Exception:
          raise AssertionError(f'Invalid setting: ({key}: {value})')
  \<close>
\<close>

fun set_items :: "heap \<Rightarrow> nat \<Rightarrow> (string \<times> pyval) list \<Rightarrow> heap \<times> assertion_error option" where
  "set_items h rv [] = (h, None)"
| "set_items h rv ((key, v) # rest) =
    (if v = PyNone then set_items h rv rest
     else (case setattr h rv key v of
             None \<Rightarrow> (h, Some (Invalid_setting_item key v))
           | Some h' \<Rightarrow> set_items h' rv rest))"

text \<open>
  \<^verbatim>\<open>
  def customize(self, custom_settings):
      rv = self.copy(deep=True)
      if custom_settings:
          if isinstance(custom_settings, BaseModel):
              ...
          elif isinstance(custom_settings, dict):
              ...
      return cast(NomadSettingsBound, rv)
  \<close>
  The result is the heap after the call together with either the error raised or the
  address of the returned model; an exception does not undo the allocations and
  assignments made before it.
\<close>

fun returning :: "nat \<Rightarrow> heap \<times> assertion_error option \<Rightarrow> heap \<times> (assertion_error + nat)" where
  "returning rv (h, None) = (h, Inr rv)"
| "returning rv (h, Some e) = (h, Inl e)"

definition customize :: "heap \<Rightarrow> nat \<Rightarrow> pyval \<Rightarrow> heap \<times> (assertion_error + nat)" where
  "customize h self custom_settings =
    (case copy_deep h self of
       (h1, rv) \<Rightarrow>
         if truthy_val h1 custom_settings then
           (case custom_settings of
              Ref a \<Rightarrow>
                (case deref h1 a of
                   Some (PyModel fs ps d) \<Rightarrow> returning rv (copy_fields h1 rv a fs)
                 | Some (PyDict items) \<Rightarrow> returning rv (set_items h1 rv items)
                 | _ \<Rightarrow> (h1, Inr rv))
            | _ \<Rightarrow> (h1, Inr rv))
         else (h1, Inr rv))"

text \<open>
  The addresses that an object refers to, the heaps without dangling references, and the
  objects that can be reached from an address by following references.
\<close>

fun val_refs :: "pyval \<Rightarrow> nat list" where
  "val_refs (Ref a) = [a]"
| "val_refs v = []"

fun refs_of :: "pyobj \<Rightarrow> nat list" where
  "refs_of (PyModel fs ps d) = concat (map (\<lambda>(k, v). val_refs v) d)"
| "refs_of (PyDict d) = concat (map (\<lambda>(k, v). val_refs v) d)"
| "refs_of (PyList xs) = concat (map val_refs xs)"

definition wf_heap :: "heap \<Rightarrow> bool" where
  "wf_heap h = list_all (\<lambda>obj. list_all (\<lambda>a. a < length h) (refs_of obj)) h"

inductive reach :: "heap \<Rightarrow> nat \<Rightarrow> nat \<Rightarrow> bool" for h :: heap and a :: nat where
  reach_self: "reach h a a"
| reach_step: "reach h a b \<Longrightarrow> b < length h \<Longrightarrow> c \<in> set (refs_of (h ! b)) \<Longrightarrow> reach h a c"

code_pred reach .

text \<open>
  Deep equality of two values, as \<^verbatim>\<open>==\<close> compares models, dictionaries and lists: atoms
  are equal when they are the same, objects when they are of the same kind with the same
  keys and deeply equal values. The comparison follows references down to depth \<open>k\<close>;
  two values are deeply equal when they are so at every depth.
\<close>

fun obj_rel :: "(pyval \<Rightarrow> pyval \<Rightarrow> bool) \<Rightarrow> pyobj \<Rightarrow> pyobj \<Rightarrow> bool" where
  "obj_rel R (PyModel fs ps d) (PyModel fs' ps' d') =
     (fs = fs' \<and> ps = ps' \<and> list_all2 (\<lambda>(k, v) (k', v'). k = k' \<and> R v v') d d')"
| "obj_rel R (PyDict d) (PyDict d') = list_all2 (\<lambda>(k, v) (k', v'). k = k' \<and> R v v') d d'"
| "obj_rel R (PyList xs) (PyList xs') = list_all2 R xs xs'"
| "obj_rel R x y = False"

primrec deep_eq :: "nat \<Rightarrow> heap \<Rightarrow> pyval \<Rightarrow> pyval \<Rightarrow> bool" where
  "deep_eq 0 h u v = (case (u, v) of (Ref a, Ref b) \<Rightarrow> True | _ \<Rightarrow> u = v)"
| "deep_eq (Suc k) h u v =
    (case (u, v) of
       (Ref a, Ref b) \<Rightarrow>
         (case (deref h a, deref h b) of
            (Some x, Some y) \<Rightarrow> obj_rel (deep_eq k h) x y
          | _ \<Rightarrow> False)
     | _ \<Rightarrow> u = v)"

text \<open>
  What the two loops have stored in the dictionary \<open>d\<close> of the copy when they meet no
  unknown name: the first loop takes the value of each field from the dictionary \<open>od\<close> of
  the override, the second loop takes the items whose value is not \<^verbatim>\<open>None\<close>.
\<close>

definition assign_fields :: "(string \<times> pyval) list \<Rightarrow> string list \<Rightarrow> (string \<times> pyval) list
    \<Rightarrow> (string \<times> pyval) list" where
  "assign_fields od fs d = fold (\<lambda>f. AList.update f (the (map_of od f))) fs d"

definition assign_items :: "(string \<times> pyval) list \<Rightarrow> (string \<times> pyval) list
    \<Rightarrow> (string \<times> pyval) list" where
  "assign_items items d = fold (\<lambda>(k, v) d. if v = PyNone then d else AList.update k v d) items d"

text \<open>
  Three heaps for the examples. In \<open>heap_xy\<close> the base \<^verbatim>\<open>B = {x: 1, y: 2}\<close> is at address 0,
  an override node \<^verbatim>\<open>{x: 1, y: 99}\<close> of the same class at address 1, a node of a class with
  the fields \<^verbatim>\<open>x\<close> and \<^verbatim>\<open>z\<close> at address 2, and the dictionaries
  \<^verbatim>\<open>{'y': 5, 'x': None}\<close>, \<^verbatim>\<open>{'nonexistent_field': 1}\<close> and \<^verbatim>\<open>{'nonexistent_field': None}\<close>
  at addresses 3, 4 and 5. In \<open>heap_nested\<close> the base at address 0 holds a list that
  holds a dictionary, and the empty dictionary is at address 3. In \<open>heap_dunder\<close> the base
  is at address 0 and the dictionary \<^verbatim>\<open>{'__doc__': 'v'}\<close> at address 1.
\<close>

definition heap_xy :: heap where
  "heap_xy =
    [PyModel [''x'', ''y''] [] [(''x'', PyInt 1), (''y'', PyInt 2)],
     PyModel [''x'', ''y''] [] [(''x'', PyInt 1), (''y'', PyInt 99)],
     PyModel [''x'', ''z''] [] [(''x'', PyInt 1), (''z'', PyInt 3)],
     PyDict [(''y'', PyInt 5), (''x'', PyNone)],
     PyDict [(''nonexistent_field'', PyInt 1)],
     PyDict [(''nonexistent_field'', PyNone)]]"

definition heap_dunder :: heap where
  "heap_dunder =
    [PyModel [''x'', ''y''] [] [(''x'', PyInt 1), (''y'', PyInt 2)],
     PyDict [(''__doc__'', PyStr ''v'')]]"

definition heap_nested :: heap where
  "heap_nested =
    [PyModel [''x'', ''sub''] [] [(''x'', PyInt 1), (''sub'', Ref 1)],
     PyList [PyInt 7, Ref 2],
     PyDict [(''k'', PyStr ''v'')],
     PyDict []]"

section \<open>The exact-match filter\<close>

lemma truthy_list_value: "truthy (list_value xs) = (or_empty xs \<noteq> [])"
  by (cases xs) simp_all

lemma py_in_or_empty: "py_in v xs = (v \<in> set (or_empty xs))"
  by (cases xs) simp_all

text \<open>
  Claim C1. \<^verbatim>\<open>OptionsBase.filter\<close> returns true exactly when the value is included
  (\<^verbatim>\<open>include\<close> is empty or absent, or holds the value, or holds \<^verbatim>\<open>'*'\<close>) and not excluded
  (\<^verbatim>\<open>exclude\<close> is non-empty and holds the value or \<^verbatim>\<open>'*'\<close>); so a value that is in
  \<^verbatim>\<open>exclude\<close> is rejected whatever \<^verbatim>\<open>include\<close> says.
\<close>

theorem filter_included_and_not_excluded:
  "(OptionsBase_filter self v \<longleftrightarrow>
      (or_empty (include' self) = [] \<or> v \<in> set (or_empty (include' self))
         \<or> ''*'' \<in> set (or_empty (include' self)))
      \<and> \<not> (or_empty (exclude self) \<noteq> []
             \<and> (v \<in> set (or_empty (exclude self)) \<or> ''*'' \<in> set (or_empty (exclude self)))))
   \<and> (v \<in> set (or_empty (exclude self)) \<longrightarrow> \<not> OptionsBase_filter self v)"
  by (auto simp: OptionsBase_filter_def Let_def truthy_list_value py_in_or_empty)

theorem filter_included_and_not_excluded_witness:
  "''a'' \<in> set (or_empty (exclude \<lparr>include' = Some [''a''], exclude = Some [''a'', ''b'']\<rparr>))
   \<and> \<not> OptionsBase_filter \<lparr>include' = Some [''a''], exclude = Some [''a'', ''b'']\<rparr> ''a''"
  using filter_included_and_not_excluded
    [of "\<lparr>include' = Some [''a''], exclude = Some [''a'', ''b'']\<rparr>" "''a''"]
  by simp

section \<open>Helper facts for the keyed option queries\<close>

lemma values_of_Some:
  "values_of (Some d) keys = Inr [the (map_of d key). key \<leftarrow> keys, \<not> dangling d key]"
proof (induction keys)
  case Nil
  show ?case by simp
next
  case (Cons key keys)
  show ?case
  proof (cases "key \<in> set (map fst d)")
    case True
    then obtain v where "map_of d key = Some v"
      by (metis map_of_eq_None_iff not_Some_eq set_map)
    with True Cons show ?thesis by (simp add: dangling_def)
  next
    case False
    with Cons show ?thesis by (simp add: dangling_def)
  qed
qed

lemma items_of_Some:
  "items_of (Some d) keys = Inr [(key, the (map_of d key)). key \<leftarrow> keys, \<not> dangling d key]"
proof (induction keys)
  case Nil
  show ?case by simp
next
  case (Cons key keys)
  show ?case
  proof (cases "key \<in> set (map fst d)")
    case True
    then obtain v where "map_of d key = Some v"
      by (metis map_of_eq_None_iff not_Some_eq set_map)
    with True Cons show ?thesis by (simp add: dangling_def)
  next
    case False
    with Cons show ?thesis by (simp add: dangling_def)
  qed
qed

lemma concat_map_if:
  "concat (map (\<lambda>x. if P x then [f x] else []) xs) = map f (filter P xs)"
  by (induction xs) simp_all

lemma starting_list_Some:
  "options self = Some d \<Longrightarrow>
   starting_list self =
     Inr (case include' self of None \<Rightarrow> map fst d
          | Some inc \<Rightarrow> if ''*'' \<in> set inc then map fst d else inc)"
  by (simp add: starting_list_def split: option.splits)

lemma filtered_keys_Some:
  "options self = Some d \<Longrightarrow> \<exists>keys. filtered_keys self = Inr keys"
  by (simp add: filtered_keys_def starting_list_Some)

lemma filtered_keys_exclude_star:
  "''*'' \<in> set (or_empty (exclude self)) \<Longrightarrow> starting_list self = Inr inc \<Longrightarrow>
   filtered_keys self = Inr []"
  by (cases "exclude self") (simp_all add: filtered_keys_def)

lemma length_filter_not:
  "length [x \<leftarrow> xs. \<not> P x] = length xs - length [x \<leftarrow> xs. P x]"
proof -
  have "length [x \<leftarrow> xs. P x] + length [x \<leftarrow> xs. \<not> P x] = length xs"
    by (rule sum_length_filter_compl)
  then show ?thesis by arith
qed

section \<open>Keyed option queries\<close>

text \<open>
  Claim C5, amended. When \<^verbatim>\<open>exclude\<close> does not contain \<^verbatim>\<open>'*'\<close>:
  \<^verbatim>\<open>filtered_keys()\<close> is \<^verbatim>\<open>include\<close> without the keys of \<^verbatim>\<open>exclude\<close>, in the order of
  \<^verbatim>\<open>include\<close>, when \<^verbatim>\<open>include\<close> is given and does not contain \<^verbatim>\<open>'*'\<close>; it is the keys
  of \<^verbatim>\<open>options\<close> without the keys of \<^verbatim>\<open>exclude\<close>, in insertion order, when
  \<^verbatim>\<open>include\<close> is absent or contains \<^verbatim>\<open>'*'\<close> and \<^verbatim>\<open>options\<close> is a dictionary; with
  neither list given it is all keys of \<^verbatim>\<open>options\<close> in insertion order.
\<close>

theorem filtered_keys_from_starting_list:
  assumes "''*'' \<notin> set (or_empty (exclude self))"
  shows "(\<forall>inc. include' self = Some inc \<and> ''*'' \<notin> set inc \<longrightarrow>
            filtered_keys self = Inr [key \<leftarrow> inc. key \<notin> set (or_empty (exclude self))])
       \<and> (\<forall>d. (include' self = None \<or> ''*'' \<in> set (or_empty (include' self)))
               \<and> options self = Some d \<longrightarrow>
            filtered_keys self = Inr [key \<leftarrow> map fst d. key \<notin> set (or_empty (exclude self))])
       \<and> (\<forall>d. include' self = None \<and> exclude self = None \<and> options self = Some d \<longrightarrow>
            filtered_keys self = Inr (map fst d))"
proof -
  have star: "\<not> (exclude self \<noteq> None \<and> py_in ''*'' (exclude self))"
    using assms by (simp add: py_in_or_empty)
  show ?thesis
    using star by (auto simp: filtered_keys_def starting_list_def split: option.splits)
qed

text \<open>The three cases of C5 on the options \<^verbatim>\<open>{'a': 1, 'b': 2, 'c': 3}\<close>.\<close>

theorem filtered_keys_from_starting_list_witness:
  "filtered_keys \<lparr>include' = Some [''c'', ''b'', ''a''], exclude = Some [''b''],
                  options = Some [(''a'', 1::int), (''b'', 2), (''c'', 3)]\<rparr> = Inr [''c'', ''a'']
   \<and> filtered_keys \<lparr>include' = Some [''z'', ''*''], exclude = Some [''b''],
                  options = Some [(''a'', 1::int), (''b'', 2), (''c'', 3)]\<rparr> = Inr [''a'', ''c'']
   \<and> filtered_keys \<lparr>include' = None, exclude = None,
                  options = Some [(''a'', 1::int), (''b'', 2), (''c'', 3)]\<rparr> = Inr [''a'', ''b'', ''c'']"
  using filtered_keys_from_starting_list
      [of "\<lparr>include' = Some [''c'', ''b'', ''a''], exclude = Some [''b''],
            options = Some [(''a'', 1::int), (''b'', 2), (''c'', 3)]\<rparr>"]
    filtered_keys_from_starting_list
      [of "\<lparr>include' = Some [''z'', ''*''], exclude = Some [''b''],
            options = Some [(''a'', 1::int), (''b'', 2), (''c'', 3)]\<rparr>"]
    filtered_keys_from_starting_list
      [of "\<lparr>include' = None, exclude = None,
            options = Some [(''a'', 1::int), (''b'', 2), (''c'', 3)]\<rparr>"]
  by simp

text \<open>
  Claim C5 as stated fails when \<^verbatim>\<open>exclude\<close> contains \<^verbatim>\<open>'*'\<close>: the key \<^verbatim>\<open>'a'\<close> is in the
  starting list and is not a key of \<^verbatim>\<open>exclude\<close>, yet the result is empty (the guard
  \<^verbatim>\<open>if self.exclude is not None and '*' in self.exclude: return []\<close>).
\<close>

theorem filtered_keys_removes_exclude_counterexample:
  "''a'' \<in> set [''a''] \<and> ''a'' \<notin> set [''*'']
   \<and> filtered_keys \<lparr>include' = Some [''a''], exclude = Some [''*''],
                    options = Some [(''a'', 1::int)]\<rparr> = Inr []"
  by (simp add: filtered_keys_def starting_list_def)

text \<open>
  Claim C6: with \<^verbatim>\<open>'*'\<close> in \<^verbatim>\<open>exclude\<close>, \<^verbatim>\<open>filtered_keys()\<close> is the empty list whatever
  \<^verbatim>\<open>include\<close> and \<^verbatim>\<open>options\<close> are. The code computes the starting list before it looks
  at \<^verbatim>\<open>exclude\<close>: with \<^verbatim>\<open>include\<close> absent and \<^verbatim>\<open>options\<close> set to \<^verbatim>\<open>None\<close> (which the
  type \<^verbatim>\<open>Optional[Dict[str, Any]]\<close> admits, and which is the default of
  \<^verbatim>\<open>FilterMenus.options\<close>), \<^verbatim>\<open>self.options.keys()\<close> raises before the guard is reached,
  whereas with an explicit \<^verbatim>\<open>include\<close> the same \<^verbatim>\<open>exclude\<close> and \<^verbatim>\<open>options\<close> give the empty
  list.
\<close>

theorem filtered_keys_exclude_star_without_options:
  "filtered_keys \<lparr>include' = None, exclude = Some [''*''], options = (None :: int dict option)\<rparr>
     = Inl AttributeError
   \<and> filtered_keys \<lparr>include' = Some [''a''], exclude = Some [''*''],
                    options = (None :: int dict option)\<rparr> = Inr []"
  by (simp add: filtered_keys_def starting_list_def)

text \<open>
  Claim C7, amended. Let \<^verbatim>\<open>options\<close> be a dictionary and \<open>z\<close> an entry of \<^verbatim>\<open>include\<close> that
  is not a key of it. Then the three queries return without an error; \<open>z\<close> is in
  \<^verbatim>\<open>filtered_keys()\<close> exactly when \<^verbatim>\<open>include\<close> does not contain \<^verbatim>\<open>'*'\<close> and \<^verbatim>\<open>exclude\<close>
  contains neither \<open>z\<close> nor \<^verbatim>\<open>'*'\<close>; no pair of \<^verbatim>\<open>filtered_items()\<close> has the key \<open>z\<close>, and
  \<^verbatim>\<open>filtered_values()\<close> is the list of the values of those pairs.
\<close>

theorem dangling_include_name:
  assumes "options self = Some d" and "include' self = Some inc"
    and "z \<in> set inc" and "dangling d z"
  shows "\<exists>keys vals items.
           filtered_keys self = Inr keys \<and> filtered_values self = Inr vals
         \<and> filtered_items self = Inr items
         \<and> (z \<in> set keys \<longleftrightarrow>
               ''*'' \<notin> set inc \<and> z \<notin> set (or_empty (exclude self))
               \<and> ''*'' \<notin> set (or_empty (exclude self)))
         \<and> z \<notin> set (map fst items) \<and> vals = map snd items"
proof -
  obtain keys where keys: "filtered_keys self = Inr keys"
    using filtered_keys_Some [OF assms(1)] by blast
  have mem: "z \<in> set keys \<longleftrightarrow>
      ''*'' \<notin> set inc \<and> z \<notin> set (or_empty (exclude self))
      \<and> ''*'' \<notin> set (or_empty (exclude self))"
    using keys assms
    by (auto simp: filtered_keys_def starting_list_def dangling_def py_in_or_empty
        split: if_splits)
  have vals: "filtered_values self = Inr [the (map_of d key). key \<leftarrow> keys, \<not> dangling d key]"
    by (simp add: filtered_values_def keys assms(1) values_of_Some)
  have items: "filtered_items self
      = Inr [(key, the (map_of d key)). key \<leftarrow> keys, \<not> dangling d key]"
    by (simp add: filtered_items_def keys assms(1) items_of_Some)
  have "z \<notin> set (map fst [(key, the (map_of d key)). key \<leftarrow> keys, \<not> dangling d key])"
    using assms(4) by (auto simp: concat_map_if)
  moreover have "[the (map_of d key). key \<leftarrow> keys, \<not> dangling d key]
      = map snd [(key, the (map_of d key)). key \<leftarrow> keys, \<not> dangling d key]"
    by (simp add: concat_map_if comp_def)
  ultimately show ?thesis
    using keys vals items mem by blast
qed

text \<open>The scenario of C7: \<^verbatim>\<open>options={'a': 1}\<close>, \<^verbatim>\<open>include=['z']\<close>.\<close>

theorem dangling_include_name_witness:
  "options \<lparr>include' = Some [''z''], exclude = None, options = Some [(''a'', 1::int)]\<rparr>
     = Some [(''a'', 1)]
   \<and> ''z'' \<in> set [''z''] \<and> dangling [(''a'', 1::int)] ''z''
   \<and> filtered_keys \<lparr>include' = Some [''z''], exclude = None, options = Some [(''a'', 1::int)]\<rparr>
     = Inr [''z'']
   \<and> filtered_values \<lparr>include' = Some [''z''], exclude = None, options = Some [(''a'', 1::int)]\<rparr>
     = Inr []
   \<and> filtered_items \<lparr>include' = Some [''z''], exclude = None, options = Some [(''a'', 1::int)]\<rparr>
     = Inr []"
  using dangling_include_name
    [of "\<lparr>include' = Some [''z''], exclude = None, options = Some [(''a'', 1::int)]\<rparr>"
        "[(''a'', 1::int)]" "[''z'']" "''z''"]
  by (simp add: dangling_def filtered_keys_def starting_list_def filtered_values_def
      filtered_items_def)

text \<open>
  Claim C7 as stated fails for a dangling name that is also excluded: it is not in
  \<^verbatim>\<open>filtered_keys()\<close>.
\<close>

theorem dangling_include_name_excluded_counterexample:
  "''z'' \<in> set [''z''] \<and> ''z'' \<notin> set (map fst [(''a'', 1::int)])
   \<and> filtered_keys \<lparr>include' = Some [''z''], exclude = Some [''z''],
                    options = Some [(''a'', 1::int)]\<rparr> = Inr []"
  by (simp add: filtered_keys_def starting_list_def)

text \<open>
  Claim C8, amended. When \<^verbatim>\<open>options\<close> is a dictionary, the keys of the pairs of
  \<^verbatim>\<open>filtered_items()\<close> are the keys of \<^verbatim>\<open>filtered_keys()\<close> that are not dangling, in the
  same order, and the length of \<^verbatim>\<open>filtered_values()\<close> is the length of
  \<^verbatim>\<open>filtered_keys()\<close> minus the number of dangling names in it.
\<close>

theorem filtered_items_keys_and_values_length:
  assumes "options self = Some d"
  shows "\<exists>keys vals items.
           filtered_keys self = Inr keys \<and> filtered_values self = Inr vals
         \<and> filtered_items self = Inr items
         \<and> map fst items = [key \<leftarrow> keys. \<not> dangling d key]
         \<and> length vals = length keys - length [key \<leftarrow> keys. dangling d key]"
proof -
  obtain keys where keys: "filtered_keys self = Inr keys"
    using filtered_keys_Some [OF assms] by blast
  have vals: "filtered_values self = Inr [the (map_of d key). key \<leftarrow> keys, \<not> dangling d key]"
    by (simp add: filtered_values_def keys assms values_of_Some)
  have items: "filtered_items self
      = Inr [(key, the (map_of d key)). key \<leftarrow> keys, \<not> dangling d key]"
    by (simp add: filtered_items_def keys assms items_of_Some)
  have "map fst [(key, the (map_of d key)). key \<leftarrow> keys, \<not> dangling d key]
      = [key \<leftarrow> keys. \<not> dangling d key]"
    by (simp add: concat_map_if comp_def)
  moreover have "length [the (map_of d key). key \<leftarrow> keys, \<not> dangling d key]
      = length keys - length [key \<leftarrow> keys. dangling d key]"
    by (simp add: concat_map_if length_filter_not)
  ultimately show ?thesis
    using keys vals items by blast
qed

text \<open>C8 on \<^verbatim>\<open>options={'a': 1}\<close>, \<^verbatim>\<open>include=['z', 'a']\<close>.\<close>

theorem filtered_items_keys_and_values_length_witness:
  "\<exists>keys vals items.
     filtered_keys \<lparr>include' = Some [''z'', ''a''], exclude = None,
                    options = Some [(''a'', 1::int)]\<rparr> = Inr keys
   \<and> filtered_values \<lparr>include' = Some [''z'', ''a''], exclude = None,
                    options = Some [(''a'', 1::int)]\<rparr> = Inr vals
   \<and> filtered_items \<lparr>include' = Some [''z'', ''a''], exclude = None,
                    options = Some [(''a'', 1::int)]\<rparr> = Inr items
   \<and> map fst items = [key \<leftarrow> keys. \<not> dangling [(''a'', 1::int)] key]
   \<and> length vals = length keys - length [key \<leftarrow> keys. dangling [(''a'', 1::int)] key]"
  using filtered_items_keys_and_values_length
    [of "\<lparr>include' = Some [''z'', ''a''], exclude = None, options = Some [(''a'', 1::int)]\<rparr>"
        "[(''a'', 1::int)]"]
  by simp

text \<open>
  Claim C8 as stated fails when \<^verbatim>\<open>filtered_keys()\<close> holds a dangling name: the keys of
  \<^verbatim>\<open>filtered_items()\<close> are then not the list \<^verbatim>\<open>filtered_keys()\<close>.
\<close>

theorem filtered_items_keys_counterexample:
  "filtered_keys \<lparr>include' = Some [''z''], exclude = None, options = Some [(''a'', 1::int)]\<rparr>
     = Inr [''z'']
   \<and> filtered_items \<lparr>include' = Some [''z''], exclude = None, options = Some [(''a'', 1::int)]\<rparr>
     = Inr []"
  by (simp add: filtered_keys_def starting_list_def filtered_items_def)

section \<open>The glob filter\<close>

lemma match_star: "match_tokens [Star] s"
  by (induction s) simp_all

lemma glob_match_star: "glob_match ''*'' s"
  by (simp add: glob_match_def match_star)

lemma matches_any_star: "''*'' \<in> set patterns \<Longrightarrow> matches_any patterns v"
  unfolding matches_any_def list_ex_iff using glob_match_star by blast

text \<open>
  Claim C9. The glob variant follows the precedence rules of the exact-match variant, each
  membership test being replaced by ``the value matches at least one pattern of the
  list'' (the pattern \<^verbatim>\<open>*\<close> matches everything, so that the test for \<^verbatim>\<open>'*'\<close> is a special
  case); a value that matches a pattern of \<^verbatim>\<open>exclude\<close> is rejected whatever \<^verbatim>\<open>include\<close>
  says; with \<^verbatim>\<open>include=['abc.*']\<close> the candidate \<^verbatim>\<open>'abc.def'\<close> is included and
  \<^verbatim>\<open>'xyz.def'\<close> is not.
\<close>

theorem glob_filter_precedence:
  "(OptionsGlob_filter self v \<longleftrightarrow>
      (or_empty (include_glob self) = [] \<or> matches_any (or_empty (include_glob self)) v
         \<or> ''*'' \<in> set (or_empty (include_glob self)))
      \<and> \<not> (or_empty (exclude_glob self) \<noteq> []
             \<and> (matches_any (or_empty (exclude_glob self)) v
                \<or> ''*'' \<in> set (or_empty (exclude_glob self)))))
   \<and> (matches_any (or_empty (exclude_glob self)) v \<longrightarrow> \<not> OptionsGlob_filter self v)
   \<and> (matches_any patterns v \<longleftrightarrow> (\<exists>pattern \<in> set patterns. glob_match pattern v))
   \<and> OptionsGlob_filter \<lparr>include_glob = Some [''abc.*''], exclude_glob = None\<rparr> ''abc.def''
   \<and> \<not> OptionsGlob_filter \<lparr>include_glob = Some [''abc.*''], exclude_glob = None\<rparr> ''xyz.def''"
proof -
  have ex: "\<not> matches_any [] v" by (simp add: matches_any_def)
  have 1: "OptionsGlob_filter \<lparr>include_glob = Some [''abc.*''], exclude_glob = None\<rparr> ''abc.def''"
    by (simp add: OptionsGlob_filter_def matches_any_def glob_match_def parse_class_def)
  have 2: "\<not> OptionsGlob_filter \<lparr>include_glob = Some [''abc.*''], exclude_glob = None\<rparr> ''xyz.def''"
    by (simp add: OptionsGlob_filter_def matches_any_def glob_match_def parse_class_def)
  show ?thesis
    using 1 2 ex matches_any_star [of "or_empty (include_glob self)" v]
      matches_any_star [of "or_empty (exclude_glob self)" v]
    by (auto simp: OptionsGlob_filter_def Let_def matches_any_def list_ex_iff)
qed

text \<open>C9 on \<^verbatim>\<open>include=['abc.*']\<close>, \<^verbatim>\<open>exclude=['*.def']\<close>: the exclusion wins.\<close>

theorem glob_filter_precedence_witness:
  "matches_any (or_empty (exclude_glob \<lparr>include_glob = Some [''abc.*''], exclude_glob = Some [''*.def'']\<rparr>)) ''abc.def''
   \<and> \<not> OptionsGlob_filter \<lparr>include_glob = Some [''abc.*''], exclude_glob = Some [''*.def'']\<rparr> ''abc.def''"
  using glob_filter_precedence
    [of "\<lparr>include_glob = Some [''abc.*''], exclude_glob = Some [''*.def'']\<rparr>" "''abc.def''"]
  by (simp add: matches_any_def glob_match_def)

section \<open>The normaliser of WidgetScatterPlot\<close>

lemma map_of_backwards_compatibility:
  "map_of (backwards_compatibility values) =
    (let color = dict_get values ''color'';
         m1 = (if color \<noteq> RNone
               then ((map_of values)(''markers'' \<mapsto> RDict [(''color'', RDict [(''quantity'', color)])]))
                      (''color'' := None)
               else map_of values);
         x = (case m1 ''x'' of None \<Rightarrow> RNone | Some v \<Rightarrow> v);
         m2 = (if isinstance_str x then m1(''x'' \<mapsto> RDict [(''quantity'', x)]) else m1);
         y = (case m2 ''y'' of None \<Rightarrow> RNone | Some v \<Rightarrow> v)
     in if isinstance_str y then m2(''y'' \<mapsto> RDict [(''quantity'', y)]) else m2)"
  by (simp add: backwards_compatibility_def Let_def dict_get_def update_conv' delete_conv')

lemma backwards_compatibility_color:
  "map_of values ''color'' = Some c \<Longrightarrow> c \<noteq> RNone \<Longrightarrow>
     map_of (backwards_compatibility values) ''color'' = None
   \<and> map_of (backwards_compatibility values) ''markers''
       = Some (RDict [(''color'', RDict [(''quantity'', c)])])"
  by (simp add: map_of_backwards_compatibility Let_def dict_get_def)

lemma backwards_compatibility_no_color:
  "dict_get values ''color'' = RNone \<Longrightarrow>
     map_of (backwards_compatibility values) ''color'' = map_of values ''color''
   \<and> map_of (backwards_compatibility values) ''markers'' = map_of values ''markers''"
  by (simp add: map_of_backwards_compatibility Let_def)

lemma backwards_compatibility_x:
  "map_of values ''x'' = Some (RStr s) \<Longrightarrow>
     map_of (backwards_compatibility values) ''x'' = Some (RDict [(''quantity'', RStr s)])"
  by (simp add: map_of_backwards_compatibility Let_def)

lemma backwards_compatibility_not_x:
  "\<not> isinstance_str (dict_get values ''x'') \<Longrightarrow>
     map_of (backwards_compatibility values) ''x'' = map_of values ''x''"
  by (simp add: map_of_backwards_compatibility Let_def dict_get_def)

lemma backwards_compatibility_y:
  "map_of values ''y'' = Some (RStr s) \<Longrightarrow>
     map_of (backwards_compatibility values) ''y'' = Some (RDict [(''quantity'', RStr s)])"
  by (simp add: map_of_backwards_compatibility Let_def)

lemma backwards_compatibility_not_y:
  "\<not> isinstance_str (dict_get values ''y'') \<Longrightarrow>
     map_of (backwards_compatibility values) ''y'' = map_of values ''y''"
  by (simp add: map_of_backwards_compatibility Let_def dict_get_def)

lemma backwards_compatibility_other:
  "key \<notin> {''color'', ''markers'', ''x'', ''y''} \<Longrightarrow>
     map_of (backwards_compatibility values) key = map_of values key"
  by (simp add: map_of_backwards_compatibility Let_def)

text \<open>
  Claim C10. A \<^verbatim>\<open>color\<close> that is present and not \<^verbatim>\<open>None\<close> is removed, and \<^verbatim>\<open>markers\<close>
  becomes \<^verbatim>\<open>{'color': {'quantity': color}}\<close> whatever it was; an \<^verbatim>\<open>x\<close> (a \<^verbatim>\<open>y\<close>) that
  is a string \<open>s\<close> becomes \<^verbatim>\<open>{'quantity': s}\<close>; every other entry is as in the input:
  \<^verbatim>\<open>color\<close> and \<^verbatim>\<open>markers\<close> when \<^verbatim>\<open>color\<close> is missing or \<^verbatim>\<open>None\<close>, \<^verbatim>\<open>x\<close> (\<^verbatim>\<open>y\<close>) when it
  is not a string, and all other keys always.
\<close>

theorem backwards_compatibility_normalises:
  "(\<forall>c. map_of values ''color'' = Some c \<and> c \<noteq> RNone \<longrightarrow>
        map_of (backwards_compatibility values) ''color'' = None
      \<and> map_of (backwards_compatibility values) ''markers''
          = Some (RDict [(''color'', RDict [(''quantity'', c)])]))
   \<and> (dict_get values ''color'' = RNone \<longrightarrow>
        map_of (backwards_compatibility values) ''color'' = map_of values ''color''
      \<and> map_of (backwards_compatibility values) ''markers'' = map_of values ''markers'')
   \<and> (\<forall>s. map_of values ''x'' = Some (RStr s) \<longrightarrow>
        map_of (backwards_compatibility values) ''x'' = Some (RDict [(''quantity'', RStr s)]))
   \<and> (\<not> isinstance_str (dict_get values ''x'') \<longrightarrow>
        map_of (backwards_compatibility values) ''x'' = map_of values ''x'')
   \<and> (\<forall>s. map_of values ''y'' = Some (RStr s) \<longrightarrow>
        map_of (backwards_compatibility values) ''y'' = Some (RDict [(''quantity'', RStr s)]))
   \<and> (\<not> isinstance_str (dict_get values ''y'') \<longrightarrow>
        map_of (backwards_compatibility values) ''y'' = map_of values ''y'')
   \<and> (\<forall>key. key \<notin> {''color'', ''markers'', ''x'', ''y''} \<longrightarrow>
        map_of (backwards_compatibility values) key = map_of values key)"
  using backwards_compatibility_color [of "values"]
    backwards_compatibility_no_color [of "values"]
    backwards_compatibility_x [of "values"] backwards_compatibility_not_x [of "values"]
    backwards_compatibility_y [of "values"] backwards_compatibility_not_y [of "values"]
    backwards_compatibility_other [of _ "values"]
  by blast

text \<open>C10 on an input with a \<^verbatim>\<open>color\<close>, a string \<^verbatim>\<open>x\<close> and a \<^verbatim>\<open>y\<close> that is an axis already.\<close>

theorem backwards_compatibility_normalises_witness:
  "map_of (backwards_compatibility
      [(''type'', RStr ''scatterplot''), (''color'', RStr ''c''), (''x'', RStr ''a''),
       (''y'', RDict [(''quantity'', RStr ''b'')]), (''markers'', RInt 3)]) ''color'' = None
   \<and> map_of (backwards_compatibility
      [(''type'', RStr ''scatterplot''), (''color'', RStr ''c''), (''x'', RStr ''a''),
       (''y'', RDict [(''quantity'', RStr ''b'')]), (''markers'', RInt 3)]) ''markers''
     = Some (RDict [(''color'', RDict [(''quantity'', RStr ''c'')])])
   \<and> map_of (backwards_compatibility
      [(''type'', RStr ''scatterplot''), (''color'', RStr ''c''), (''x'', RStr ''a''),
       (''y'', RDict [(''quantity'', RStr ''b'')]), (''markers'', RInt 3)]) ''x''
     = Some (RDict [(''quantity'', RStr ''a'')])
   \<and> map_of (backwards_compatibility
      [(''type'', RStr ''scatterplot''), (''color'', RStr ''c''), (''x'', RStr ''a''),
       (''y'', RDict [(''quantity'', RStr ''b'')]), (''markers'', RInt 3)]) ''y''
     = Some (RDict [(''quantity'', RStr ''b'')])
   \<and> map_of (backwards_compatibility
      [(''type'', RStr ''scatterplot''), (''color'', RStr ''c''), (''x'', RStr ''a''),
       (''y'', RDict [(''quantity'', RStr ''b'')]), (''markers'', RInt 3)]) ''type''
     = Some (RStr ''scatterplot'')"
  using backwards_compatibility_normalises
    [of "[(''type'', RStr ''scatterplot''), (''color'', RStr ''c''), (''x'', RStr ''a''),
          (''y'', RDict [(''quantity'', RStr ''b'')]), (''markers'', RInt 3)]"]
  by (simp add: dict_get_def)

section \<open>The loops of customize\<close>

lemma setattr_model:
  "a < length h \<Longrightarrow> h ! a = PyModel fs ps d \<Longrightarrow>
   setattr h a name v =
     (if assignable fs ps name then Some (h[a := PyModel fs ps (AList.update name v d)])
      else None)"
  by (auto simp: setattr_def deref_def assignable_def)

lemma assignable_field: "name \<in> set fs \<Longrightarrow> assignable fs ps name"
  by (simp add: assignable_def)

lemma getattr_model:
  "a < length h \<Longrightarrow> h ! a = PyModel fs ps d \<Longrightarrow> getattr h a name = map_of d name"
  by (simp add: getattr_def deref_def)

lemma map_of_assign_fields:
  "map_of (assign_fields od fs d) k = (if k \<in> set fs then Some (the (map_of od k)) else map_of d k)"
  unfolding assign_fields_def
  by (induction fs arbitrary: d) (simp_all add: update_conv')

lemma copy_fields_prefix:
  assumes "rv < length h" and "h ! rv = PyModel bfs bps d"
    and "custom < length h" and "custom \<noteq> rv" and "h ! custom = PyModel ofs ops od"
    and "\<forall>f \<in> set pre. assignable bfs bps f" and "set pre \<subseteq> fst ` set od"
  shows "copy_fields h rv custom (pre @ rest)
    = copy_fields (h[rv := PyModel bfs bps (assign_fields od pre d)]) rv custom rest"
  using assms
proof (induction pre arbitrary: h d)
  case Nil
  then have "h[rv := PyModel bfs bps d] = h" by (metis list_update_id)
  then show ?case by (simp add: assign_fields_def)
next
  case (Cons f pre)
  from Cons.prems obtain v where v: "map_of od f = Some v"
    by (metis list.set_intros(1) subsetD map_of_eq_None_iff not_Some_eq)
  let ?h = "h[rv := PyModel bfs bps (AList.update f v d)]"
  have get: "getattr h custom f = Some v"
    using Cons.prems v by (simp add: getattr_model)
  have set: "setattr h rv f v = Some ?h"
    using Cons.prems by (simp add: setattr_model)
  have "copy_fields ?h rv custom (pre @ rest)
      = copy_fields (?h[rv := PyModel bfs bps (assign_fields od pre (AList.update f v d))]) rv custom rest"
    using Cons.prems by (intro Cons.IH) simp_all
  then show ?case
    using get set v by (simp add: assign_fields_def)
qed

lemma copy_fields_all:
  assumes "rv < length h" and "h ! rv = PyModel bfs bps d"
    and "custom < length h" and "custom \<noteq> rv" and "h ! custom = PyModel ofs ops od"
    and "set fs \<subseteq> set bfs" and "set fs \<subseteq> fst ` set od"
  shows "copy_fields h rv custom fs = (h[rv := PyModel bfs bps (assign_fields od fs d)], None)"
proof -
  have "\<forall>f \<in> set fs. assignable bfs bps f"
    using assms(6) by (auto intro: assignable_field)
  from copy_fields_prefix [OF assms(1-5) this assms(7), of "[]"] show ?thesis by simp
qed

lemma copy_fields_unknown:
  assumes "rv < length h" and "h ! rv = PyModel bfs bps d"
    and "custom < length h" and "custom \<noteq> rv" and "h ! custom = PyModel ofs ops od"
    and "\<forall>g \<in> set pre. assignable bfs bps g" and "set pre \<subseteq> fst ` set od"
    and "\<not> assignable bfs bps f"
  shows "snd (copy_fields h rv custom (pre @ f # post)) = Some (Invalid_setting f)"
proof -
  let ?h = "h[rv := PyModel bfs bps (assign_fields od pre d)]"
  have "setattr ?h rv f v = None" for v
    using assms by (simp add: setattr_model)
  then have "snd (copy_fields ?h rv custom (f # post)) = Some (Invalid_setting f)"
    by (simp split: option.splits)
  then show ?thesis
    using copy_fields_prefix [OF assms(1-7), of "f # post"] by simp
qed

lemma map_of_assign_items_notin:
  "k \<notin> fst ` set items \<Longrightarrow> map_of (assign_items items d) k = map_of d k"
  unfolding assign_items_def
  by (induction items arbitrary: d) (auto simp: update_conv')

lemma map_of_assign_items:
  "distinct (map fst items) \<Longrightarrow> (k, v) \<in> set items \<Longrightarrow>
   map_of (assign_items items d) k = (if v = PyNone then map_of d k else Some v)"
proof (induction items arbitrary: d)
  case Nil
  then show ?case by simp
next
  case (Cons kv items)
  obtain k' v' where kv: "kv = (k', v')" by (cases kv)
  let ?d = "if v' = PyNone then d else AList.update k' v' d"
  have step: "assign_items (kv # items) d = assign_items items ?d"
    by (simp add: assign_items_def kv)
  show ?case
  proof (cases "(k, v) \<in> set items")
    case True
    with Cons.prems kv have "k \<noteq> k'" by force
    moreover have "map_of (assign_items items ?d) k = (if v = PyNone then map_of ?d k else Some v)"
      using Cons.prems True by (intro Cons.IH) simp_all
    ultimately show ?thesis
      by (simp add: step update_conv')
  next
    case False
    with Cons.prems kv have eq: "k = k'" "v = v'" by auto
    with Cons.prems kv have "k \<notin> fst ` set items" by force
    then have "map_of (assign_items items ?d) k = map_of ?d k"
      by (rule map_of_assign_items_notin)
    then show ?thesis
      by (simp add: step eq update_conv')
  qed
qed

lemma set_items_prefix:
  assumes "rv < length h" and "h ! rv = PyModel bfs bps d"
    and "\<forall>(k, v) \<in> set pre. v = PyNone \<or> assignable bfs bps k"
  shows "set_items h rv (pre @ rest)
    = set_items (h[rv := PyModel bfs bps (assign_items pre d)]) rv rest"
  using assms
proof (induction pre arbitrary: h d)
  case Nil
  then have "h[rv := PyModel bfs bps d] = h" by (metis list_update_id)
  then show ?case by (simp add: assign_items_def)
next
  case (Cons kv pre)
  obtain k v where kv: "kv = (k, v)" by (cases kv)
  show ?case
  proof (cases "v = PyNone")
    case True
    have "set_items h rv (pre @ rest)
        = set_items (h[rv := PyModel bfs bps (assign_items pre d)]) rv rest"
      using Cons.prems by (intro Cons.IH) simp_all
    then show ?thesis
      using True by (simp add: kv assign_items_def)
  next
    case False
    let ?h = "h[rv := PyModel bfs bps (AList.update k v d)]"
    from False Cons.prems kv have "assignable bfs bps k" by auto
    then have set: "setattr h rv k v = Some ?h"
      using Cons.prems by (simp add: setattr_model)
    have "set_items ?h rv (pre @ rest)
        = set_items (?h[rv := PyModel bfs bps (assign_items pre (AList.update k v d))]) rv rest"
      using Cons.prems by (intro Cons.IH) simp_all
    then show ?thesis
      using False set by (simp add: kv assign_items_def)
  qed
qed

lemma set_items_all:
  assumes "rv < length h" and "h ! rv = PyModel bfs bps d"
    and "\<forall>(k, v) \<in> set items. v = PyNone \<or> k \<in> set bfs"
  shows "set_items h rv items = (h[rv := PyModel bfs bps (assign_items items d)], None)"
proof -
  have "\<forall>(k, v) \<in> set items. v = PyNone \<or> assignable bfs bps k"
    using assms(3) by (auto intro: assignable_field)
  from set_items_prefix [OF assms(1,2) this, of "[]"] show ?thesis by simp
qed

lemma set_items_unknown:
  assumes "rv < length h" and "h ! rv = PyModel bfs bps d"
    and "\<forall>(k, v) \<in> set pre. v = PyNone \<or> assignable bfs bps k"
    and "v \<noteq> PyNone" and "\<not> assignable bfs bps k"
  shows "snd (set_items h rv (pre @ (k, v) # post)) = Some (Invalid_setting_item k v)"
proof -
  let ?h = "h[rv := PyModel bfs bps (assign_items pre d)]"
  have "setattr ?h rv k v = None"
    using assms by (simp add: setattr_model)
  then have "snd (set_items ?h rv ((k, v) # post)) = Some (Invalid_setting_item k v)"
    using assms(4) by simp
  then show ?thesis
    using set_items_prefix [OF assms(1-3), of "(k, v) # post"] by simp
qed

text \<open>The loops write to the copy only.\<close>

lemma setattr_take:
  "setattr h rv name v = Some h' \<Longrightarrow> n \<le> rv \<Longrightarrow> take n h' = take n h \<and> length h' = length h"
  by (auto simp: setattr_def split: option.splits pyobj.splits if_splits)

lemma copy_fields_take:
  "n \<le> rv \<Longrightarrow> take n (fst (copy_fields h rv custom fs)) = take n h
     \<and> length (fst (copy_fields h rv custom fs)) = length h"
proof (induction fs arbitrary: h)
  case Nil
  then show ?case by simp
next
  case (Cons f fs)
  show ?case
  proof (cases "getattr h custom f")
    case None
    then show ?thesis by simp
  next
    case (Some v)
    note get = Some
    show ?thesis
    proof (cases "setattr h rv f v")
      case None
      with get show ?thesis by simp
    next
      case (Some h')
      with setattr_take [OF Some Cons.prems] Cons.IH [OF Cons.prems, of h'] get
      show ?thesis by simp
    qed
  qed
qed

lemma set_items_take:
  "n \<le> rv \<Longrightarrow> take n (fst (set_items h rv items)) = take n h
     \<and> length (fst (set_items h rv items)) = length h"
proof (induction items arbitrary: h)
  case Nil
  then show ?case by simp
next
  case (Cons kv items)
  obtain k v where kv: "kv = (k, v)" by (cases kv)
  show ?case
  proof (cases "v = PyNone")
    case True
    with Cons kv show ?thesis by simp
  next
    case False
    show ?thesis
    proof (cases "setattr h rv k v")
      case None
      with False kv show ?thesis by simp
    next
      case (Some h')
      with setattr_take [OF Some Cons.prems] Cons.IH [OF Cons.prems, of h'] False kv
      show ?thesis by simp
    qed
  qed
qed

lemma fst_returning: "fst (returning rv r) = fst r"
  by (cases r, cases "snd r") auto

lemma customize_take:
  "take (length h) (fst (customize h self custom)) = h
   \<and> length (fst (customize h self custom)) = 2 * length h"
proof -
  let ?h1 = "h @ map (shift_obj (length h)) h"
  let ?rv = "length h + self"
  have le: "length h \<le> ?rv" by simp
  have base: "take (length h) ?h1 = h \<and> length ?h1 = 2 * length h" by simp
  show ?thesis
    using base copy_fields_take [OF le, of ?h1] set_items_take [OF le, of ?h1]
    by (simp add: customize_def copy_deep_def fst_returning
        split: pyval.splits option.splits pyobj.splits)
qed

section \<open>Overrides\<close>

lemma map_of_shift:
  "map_of (map (\<lambda>(k, v). (k, shift_val n v)) d) k = map_option (shift_val n) (map_of d k)"
  by (induction d) auto

lemma copy_deep_old:
  "a < length h \<Longrightarrow> (h @ map (shift_obj (length h)) h) ! a = h ! a"
  by (simp add: nth_append)

lemma copy_deep_new:
  "a < length h \<Longrightarrow> (h @ map (shift_obj (length h)) h) ! (length h + a) = shift_obj (length h) (h ! a)"
  by (simp add: nth_append)

lemma customize_node:
  assumes "custom < length h" and "h ! custom = PyModel ofs ops od"
  shows "customize h self (Ref custom)
    = returning (length h + self)
        (copy_fields (h @ map (shift_obj (length h)) h) (length h + self) custom ofs)"
  using assms by (simp add: customize_def copy_deep_def truthy_val_def deref_def nth_append)

lemma customize_dict:
  assumes "custom < length h" and "h ! custom = PyDict items"
  shows "customize h self (Ref custom)
    = returning (length h + self)
        (set_items (h @ map (shift_obj (length h)) h) (length h + self) items)"
  using assms
  by (cases items) (simp_all add: customize_def copy_deep_def truthy_val_def deref_def nth_append)

lemma customize_nothing:
  assumes "custom = PyNone \<or> (\<exists>e. custom = Ref e \<and> deref h e = Some (PyDict []))"
  shows "customize h self custom = (h @ map (shift_obj (length h)) h, Inr (length h + self))"
  using assms
  by (auto simp: customize_def copy_deep_def truthy_val_def deref_def nth_append
      split: if_splits)

lemma snd_returning_Some: "snd r = Some e \<Longrightarrow> snd (returning rv r) = Inl e"
  by (cases r) auto

lemma customize_node_unassignable:
  assumes "self < length h" and "h ! self = PyModel bfs bps bd" and "custom < length h"
    and "h ! custom = PyModel ofs ops od" and "set ofs \<subseteq> fst ` set od"
    and "\<exists>f \<in> set ofs. \<not> assignable bfs bps f"
  shows "\<exists>pre f post. ofs = pre @ f # post \<and> (\<forall>g \<in> set pre. assignable bfs bps g)
           \<and> \<not> assignable bfs bps f
           \<and> snd (customize h self (Ref custom)) = Inl (Invalid_setting f)"
proof -
  let ?n = "length h"
  let ?h1 = "h @ map (shift_obj ?n) h"
  let ?rv = "?n + self"
  let ?d = "map (\<lambda>(k, v). (k, shift_val ?n v)) bd"
  have rv: "?rv < length ?h1" using assms(1) by simp
  have at_rv: "?h1 ! ?rv = PyModel bfs bps ?d"
    using assms(1,2) by (simp add: copy_deep_new)
  have c: "custom < length ?h1" "custom \<noteq> ?rv" using assms(3) by simp_all
  from assms(6) obtain pre f post where split: "ofs = pre @ f # post"
    "\<not> assignable bfs bps f" "\<forall>g \<in> set pre. \<not> \<not> assignable bfs bps g"
    using split_list_first_prop [of ofs "\<lambda>f. \<not> assignable bfs bps f"] by blast
  have at_c: "?h1 ! custom = PyModel ofs ops od"
    using assms(3,4) by (simp add: copy_deep_old)
  have pre: "\<forall>g \<in> set pre. assignable bfs bps g" "set pre \<subseteq> fst ` set od"
    using split assms(5) by auto
  have "snd (copy_fields ?h1 ?rv custom (pre @ f # post)) = Some (Invalid_setting f)"
    using rv at_rv c at_c pre split(2) by (rule copy_fields_unknown)
  then have "snd (customize h self (Ref custom)) = Inl (Invalid_setting f)"
    using assms(3,4) split(1) by (simp add: customize_node snd_returning_Some)
  then show ?thesis
    using split(1,2) pre(1) by (intro exI [of _ pre] exI [of _ f] exI [of _ post]) simp
qed

lemma customize_dict_unassignable:
  assumes "self < length h" and "h ! self = PyModel bfs bps bd" and "custom < length h"
    and "h ! custom = PyDict items"
    and "\<exists>(k, v) \<in> set items. v \<noteq> PyNone \<and> \<not> assignable bfs bps k"
  shows "\<exists>pre k v post. items = pre @ (k, v) # post
           \<and> (\<forall>(k', v') \<in> set pre. v' = PyNone \<or> assignable bfs bps k')
           \<and> v \<noteq> PyNone \<and> \<not> assignable bfs bps k
           \<and> snd (customize h self (Ref custom)) = Inl (Invalid_setting_item k v)"
proof -
  let ?n = "length h"
  let ?h1 = "h @ map (shift_obj ?n) h"
  let ?rv = "?n + self"
  let ?d = "map (\<lambda>(k, v). (k, shift_val ?n v)) bd"
  have rv: "?rv < length ?h1" using assms(1) by simp
  have at_rv: "?h1 ! ?rv = PyModel bfs bps ?d"
    using assms(1,2) by (simp add: copy_deep_new)
  from assms(5) have "\<exists>kv \<in> set items. snd kv \<noteq> PyNone \<and> \<not> assignable bfs bps (fst kv)"
    by force
  then obtain pre kv post where split: "items = pre @ kv # post"
    "snd kv \<noteq> PyNone \<and> \<not> assignable bfs bps (fst kv)"
    "\<forall>p \<in> set pre. \<not> (snd p \<noteq> PyNone \<and> \<not> assignable bfs bps (fst p))"
    using split_list_first_prop
      [of items "\<lambda>kv. snd kv \<noteq> PyNone \<and> \<not> assignable bfs bps (fst kv)"] by blast
  obtain k v where kv: "kv = (k, v)" by (cases kv)
  have pre: "\<forall>(k', v') \<in> set pre. v' = PyNone \<or> assignable bfs bps k'"
    using split(3) by auto
  have knew: "v \<noteq> PyNone" "\<not> assignable bfs bps k"
    using split(2) kv by simp_all
  have "snd (set_items ?h1 ?rv (pre @ (k, v) # post)) = Some (Invalid_setting_item k v)"
    using rv at_rv pre knew by (rule set_items_unknown)
  then have "snd (customize h self (Ref custom)) = Inl (Invalid_setting_item k v)"
    using assms(3,4) split(1) kv by (simp add: customize_dict snd_returning_Some)
  then show ?thesis
    using split(1) kv knew pre
    by (intro exI [of _ pre] exI [of _ k] exI [of _ v] exI [of _ post]) simp
qed

text \<open>
  Claim C2, amended. Let the override be in the heap of the call and the base be a model with
  the fields \<open>bfs\<close> and the private attributes \<open>bps\<close>. A name is unknown to the base when it
  is not a field, not a private attribute and not one of \<^verbatim>\<open>DUNDER_ATTRIBUTES\<close>. If the override
  is a node (each of whose declared fields has a value) with a field that is unknown to the
  base, \<^verbatim>\<open>customize\<close> raises the error that names the first such field; if it is a dictionary
  with a key that is unknown to the base and whose value is not \<^verbatim>\<open>None\<close>, \<^verbatim>\<open>customize\<close> raises
  the error that names the first such key and its value. In both cases the call yields the
  error and no model.
\<close>

theorem customize_rejects_unknown_field:
  assumes "self < length h" and "h ! self = PyModel bfs bps bd" and "custom < length h"
  shows "(\<forall>ofs ops od. h ! custom = PyModel ofs ops od \<and> set ofs \<subseteq> fst ` set od
            \<and> (\<exists>f \<in> set ofs. f \<notin> set bfs \<and> f \<notin> set bps \<and> f \<notin> set DUNDER_ATTRIBUTES) \<longrightarrow>
          (\<exists>pre f post. ofs = pre @ f # post
             \<and> (\<forall>g \<in> set pre. g \<in> set bfs \<or> g \<in> set bps \<or> g \<in> set DUNDER_ATTRIBUTES)
             \<and> f \<notin> set bfs \<and> f \<notin> set bps \<and> f \<notin> set DUNDER_ATTRIBUTES
             \<and> snd (customize h self (Ref custom)) = Inl (Invalid_setting f)))
       \<and> (\<forall>items. h ! custom = PyDict items
            \<and> (\<exists>(k, v) \<in> set items.
                  v \<noteq> PyNone \<and> k \<notin> set bfs \<and> k \<notin> set bps \<and> k \<notin> set DUNDER_ATTRIBUTES) \<longrightarrow>
          (\<exists>pre k v post. items = pre @ (k, v) # post
             \<and> (\<forall>(k', v') \<in> set pre.
                  v' = PyNone \<or> k' \<in> set bfs \<or> k' \<in> set bps \<or> k' \<in> set DUNDER_ATTRIBUTES)
             \<and> v \<noteq> PyNone \<and> k \<notin> set bfs \<and> k \<notin> set bps \<and> k \<notin> set DUNDER_ATTRIBUTES
             \<and> snd (customize h self (Ref custom)) = Inl (Invalid_setting_item k v)))"
proof (intro conjI allI impI)
  fix ofs ops od
  assume a: "h ! custom = PyModel ofs ops od \<and> set ofs \<subseteq> fst ` set od
      \<and> (\<exists>f \<in> set ofs. f \<notin> set bfs \<and> f \<notin> set bps \<and> f \<notin> set DUNDER_ATTRIBUTES)"
  then have node: "h ! custom = PyModel ofs ops od" "set ofs \<subseteq> fst ` set od"
    by blast+
  from a have "\<exists>f \<in> set ofs. \<not> assignable bfs bps f"
    by (simp add: assignable_def)
  then have "\<exists>pre f post. ofs = pre @ f # post \<and> (\<forall>g \<in> set pre. assignable bfs bps g)
      \<and> \<not> assignable bfs bps f
      \<and> snd (customize h self (Ref custom)) = Inl (Invalid_setting f)"
    by (rule customize_node_unassignable [OF assms node])
  then show "\<exists>pre f post. ofs = pre @ f # post
      \<and> (\<forall>g \<in> set pre. g \<in> set bfs \<or> g \<in> set bps \<or> g \<in> set DUNDER_ATTRIBUTES)
      \<and> f \<notin> set bfs \<and> f \<notin> set bps \<and> f \<notin> set DUNDER_ATTRIBUTES
      \<and> snd (customize h self (Ref custom)) = Inl (Invalid_setting f)"
    by (simp add: assignable_def)
next
  fix items
  assume a: "h ! custom = PyDict items
      \<and> (\<exists>(k, v) \<in> set items.
            v \<noteq> PyNone \<and> k \<notin> set bfs \<and> k \<notin> set bps \<and> k \<notin> set DUNDER_ATTRIBUTES)"
  then have dict: "h ! custom = PyDict items"
    by blast
  from a have "\<exists>(k, v) \<in> set items. v \<noteq> PyNone \<and> \<not> assignable bfs bps k"
    by (simp add: assignable_def)
  then have "\<exists>pre k v post. items = pre @ (k, v) # post
      \<and> (\<forall>(k', v') \<in> set pre. v' = PyNone \<or> assignable bfs bps k')
      \<and> v \<noteq> PyNone \<and> \<not> assignable bfs bps k
      \<and> snd (customize h self (Ref custom)) = Inl (Invalid_setting_item k v)"
    by (rule customize_dict_unassignable [OF assms dict])
  then show "\<exists>pre k v post. items = pre @ (k, v) # post
      \<and> (\<forall>(k', v') \<in> set pre.
            v' = PyNone \<or> k' \<in> set bfs \<or> k' \<in> set bps \<or> k' \<in> set DUNDER_ATTRIBUTES)
      \<and> v \<noteq> PyNone \<and> k \<notin> set bfs \<and> k \<notin> set bps \<and> k \<notin> set DUNDER_ATTRIBUTES
      \<and> snd (customize h self (Ref custom)) = Inl (Invalid_setting_item k v)"
    by (simp add: assignable_def)
qed

text \<open>
  C2 on \<open>heap_xy\<close>: a node with the unknown field \<^verbatim>\<open>z\<close>, and the dictionary
  \<^verbatim>\<open>{'nonexistent_field': 1}\<close>.
\<close>

theorem customize_rejects_unknown_field_witness:
  "snd (customize heap_xy 0 (Ref 2)) = Inl (Invalid_setting ''z'')
   \<and> snd (customize heap_xy 0 (Ref 4)) = Inl (Invalid_setting_item ''nonexistent_field'' (PyInt 1))"
proof
  have self: "0 < length heap_xy"
    "heap_xy ! 0 = PyModel [''x'', ''y''] [] [(''x'', PyInt 1), (''y'', PyInt 2)]"
    by (simp_all add: heap_xy_def)
  have node: "2 < length heap_xy"
    "heap_xy ! 2 = PyModel [''x'', ''z''] [] [(''x'', PyInt 1), (''z'', PyInt 3)]
       \<and> set [''x'', ''z''] \<subseteq> fst ` set [(''x'', PyInt 1), (''z'', PyInt 3)]
       \<and> (\<exists>f \<in> set [''x'', ''z''].
             f \<notin> set [''x'', ''y''] \<and> f \<notin> set [] \<and> f \<notin> set DUNDER_ATTRIBUTES)"
    by (simp_all add: heap_xy_def DUNDER_ATTRIBUTES_def)
  from customize_rejects_unknown_field [OF self node(1)] node(2)
  obtain pre f post where f: "[''x'', ''z''] = pre @ f # post"
    "f \<notin> set [''x'', ''y'']"
    "snd (customize heap_xy 0 (Ref 2)) = Inl (Invalid_setting f)"
    by blast
  from f(1) have "f \<in> set [''x'', ''z'']"
    by (metis in_set_conv_decomp)
  with f(2) have "f = ''z''" by simp
  with f(3) show "snd (customize heap_xy 0 (Ref 2)) = Inl (Invalid_setting ''z'')" by simp
  have items: "4 < length heap_xy"
    "heap_xy ! 4 = PyDict [(''nonexistent_field'', PyInt 1)]
       \<and> (\<exists>(k, v) \<in> set [(''nonexistent_field'', PyInt 1)].
             v \<noteq> PyNone \<and> k \<notin> set [''x'', ''y''] \<and> k \<notin> set [] \<and> k \<notin> set DUNDER_ATTRIBUTES)"
    by (simp_all add: heap_xy_def DUNDER_ATTRIBUTES_def)
  from customize_rejects_unknown_field [OF self items(1)] items(2)
  obtain pre k v post where kv: "[(''nonexistent_field'', PyInt 1)] = pre @ (k, v) # post"
    "snd (customize heap_xy 0 (Ref 4)) = Inl (Invalid_setting_item k v)"
    by blast
  from kv(1) have "(k, v) \<in> set [(''nonexistent_field'', PyInt 1)]"
    by (metis in_set_conv_decomp)
  then have "k = ''nonexistent_field''" "v = PyInt 1" by simp_all
  with kv(2) show "snd (customize heap_xy 0 (Ref 4))
      = Inl (Invalid_setting_item ''nonexistent_field'' (PyInt 1))" by simp
qed

text \<open>
  Claim C2 as stated fails for a key whose value is \<^verbatim>\<open>None\<close>: the dictionary
  \<^verbatim>\<open>{'nonexistent_field': None}\<close> names a field that the base does not have, and
  \<^verbatim>\<open>customize\<close> returns the copy (the statement \<^verbatim>\<open>if value is None: continue\<close>).
\<close>

theorem customize_skips_None_counterexample:
  "heap_xy ! 0 = PyModel [''x'', ''y''] [] [(''x'', PyInt 1), (''y'', PyInt 2)]
   \<and> heap_xy ! 5 = PyDict [(''nonexistent_field'', PyNone)]
   \<and> ''nonexistent_field'' \<notin> set [''x'', ''y'']
   \<and> snd (customize heap_xy 0 (Ref 5)) = Inr 6"
  by (simp add: heap_xy_def customize_def copy_deep_def truthy_val_def deref_def)

text \<open>
  A key of \<^verbatim>\<open>DUNDER_ATTRIBUTES\<close> is not a field of the base either, and is stored in the
  copy without an error: \<^verbatim>\<open>customize(B, {'__doc__': 'v'})\<close> returns the copy, whose
  dictionary holds the key.
\<close>

lemma doc_in_DUNDER_ATTRIBUTES: "''__doc__'' \<in> set DUNDER_ATTRIBUTES"
  by (simp add: DUNDER_ATTRIBUTES_def)

lemma customize_dunder_key:
  "''__doc__'' \<notin> set [''x'', ''y'']
   \<and> snd (customize heap_dunder 0 (Ref 1)) = Inr 2
   \<and> getattr (fst (customize heap_dunder 0 (Ref 1))) 2 ''__doc__'' = Some (PyStr ''v'')
   \<and> getattr (fst (customize heap_dunder 0 (Ref 1))) 2 ''x'' = Some (PyInt 1)"
  by (simp add: heap_dunder_def customize_def copy_deep_def truthy_val_def deref_def
      setattr_def getattr_def doc_in_DUNDER_ATTRIBUTES)

text \<open>
  Claim C3. With an override node all of whose fields are fields of the base, \<^verbatim>\<open>customize\<close>
  returns the copy, and for every field declared on the node the copy holds the value that
  the node holds (the same reference, whether or not it is a default). With a dictionary
  whose keys with a value other than \<^verbatim>\<open>None\<close> are fields of the base, \<^verbatim>\<open>customize\<close> returns
  the copy, in which a key with the value \<^verbatim>\<open>None\<close> has the (copied) value of the base and
  every other key has the value of the dictionary.
\<close>

theorem customize_applies_overrides:
  assumes "self < length h" and "h ! self = PyModel bfs bps bd" and "custom < length h"
  shows "(\<forall>ofs ops od. h ! custom = PyModel ofs ops od \<and> set ofs \<subseteq> fst ` set od
            \<and> set ofs \<subseteq> set bfs \<longrightarrow>
          snd (customize h self (Ref custom)) = Inr (length h + self)
          \<and> (\<forall>f \<in> set ofs.
                getattr (fst (customize h self (Ref custom))) (length h + self) f
                  = getattr h custom f))
       \<and> (\<forall>items. h ! custom = PyDict items \<and> distinct (map fst items)
            \<and> (\<forall>(k, v) \<in> set items. v = PyNone \<or> k \<in> set bfs) \<longrightarrow>
          snd (customize h self (Ref custom)) = Inr (length h + self)
          \<and> (\<forall>(k, v) \<in> set items.
                getattr (fst (customize h self (Ref custom))) (length h + self) k
                  = (if v = PyNone then map_option (shift_val (length h)) (getattr h self k)
                     else Some v)))"
proof (intro conjI allI impI)
  let ?n = "length h"
  let ?h1 = "h @ map (shift_obj ?n) h"
  let ?rv = "?n + self"
  let ?d = "map (\<lambda>(k, v). (k, shift_val ?n v)) bd"
  have rv: "?rv < length ?h1" using assms(1) by simp
  have at_rv: "?h1 ! ?rv = PyModel bfs bps ?d"
    using assms(1,2) by (simp add: copy_deep_new)
  have c: "custom < length ?h1" "custom \<noteq> ?rv" using assms(3) by simp_all
  have base: "getattr h self k = map_of bd k" for k
    using assms(1,2) by (simp add: getattr_model)
  {
    fix ofs ops od
    assume a: "h ! custom = PyModel ofs ops od \<and> set ofs \<subseteq> fst ` set od \<and> set ofs \<subseteq> set bfs"
    have at_c: "?h1 ! custom = PyModel ofs ops od"
      using a assms(3) by (simp add: copy_deep_old)
    have run: "copy_fields ?h1 ?rv custom ofs
        = (?h1[?rv := PyModel bfs bps (assign_fields od ofs ?d)], None)"
      using rv at_rv c at_c a by (intro copy_fields_all) simp_all
    have res: "customize h self (Ref custom)
        = (?h1[?rv := PyModel bfs bps (assign_fields od ofs ?d)], Inr ?rv)"
      using a assms(3) run by (simp add: customize_node)
    show "snd (customize h self (Ref custom)) = Inr ?rv"
      by (simp add: res)
    show "\<forall>f \<in> set ofs. getattr (fst (customize h self (Ref custom))) ?rv f = getattr h custom f"
    proof
      fix f
      assume f: "f \<in> set ofs"
      with a obtain v where v: "map_of od f = Some v"
        by (metis subsetD map_of_eq_None_iff not_Some_eq)
      have "getattr (?h1[?rv := PyModel bfs bps (assign_fields od ofs ?d)]) ?rv f
          = map_of (assign_fields od ofs ?d) f"
        using rv by (intro getattr_model) simp_all
      also have "\<dots> = Some v"
        using f v by (simp add: map_of_assign_fields)
      also have "\<dots> = getattr h custom f"
        using a assms(3) v by (simp add: getattr_model)
      finally show "getattr (fst (customize h self (Ref custom))) ?rv f = getattr h custom f"
        by (simp add: res)
    qed
  }
  {
    fix items
    assume a: "h ! custom = PyDict items \<and> distinct (map fst items)
        \<and> (\<forall>(k, v) \<in> set items. v = PyNone \<or> k \<in> set bfs)"
    have run: "set_items ?h1 ?rv items = (?h1[?rv := PyModel bfs bps (assign_items items ?d)], None)"
      using rv at_rv a by (intro set_items_all) simp_all
    have res: "customize h self (Ref custom)
        = (?h1[?rv := PyModel bfs bps (assign_items items ?d)], Inr ?rv)"
      using a assms(3) run by (simp add: customize_dict)
    show "snd (customize h self (Ref custom)) = Inr ?rv"
      by (simp add: res)
    show "\<forall>(k, v) \<in> set items.
            getattr (fst (customize h self (Ref custom))) ?rv k
              = (if v = PyNone then map_option (shift_val ?n) (getattr h self k) else Some v)"
    proof (clarify)
      fix k v
      assume kv: "(k, v) \<in> set items"
      have "getattr (?h1[?rv := PyModel bfs bps (assign_items items ?d)]) ?rv k
          = map_of (assign_items items ?d) k"
        using rv by (intro getattr_model) simp_all
      also have "\<dots> = (if v = PyNone then map_of ?d k else Some v)"
        using a kv by (intro map_of_assign_items) simp_all
      also have "\<dots> = (if v = PyNone then map_option (shift_val ?n) (getattr h self k) else Some v)"
        by (simp add: map_of_shift base)
      finally show "getattr (fst (customize h self (Ref custom))) ?rv k
          = (if v = PyNone then map_option (shift_val ?n) (getattr h self k) else Some v)"
        by (simp add: res)
    qed
  }
qed

text \<open>
  C3 on \<open>heap_xy\<close>: \<^verbatim>\<open>B = {x: 1, y: 2}\<close> with the override node \<^verbatim>\<open>{x: 1, y: 99}\<close> gives
  \<^verbatim>\<open>{x: 1, y: 99}\<close>, and with the dictionary \<^verbatim>\<open>{'y': 5, 'x': None}\<close> gives
  \<^verbatim>\<open>{x: 1, y: 5}\<close>.
\<close>

theorem customize_applies_overrides_witness:
  "snd (customize heap_xy 0 (Ref 1)) = Inr 6
   \<and> getattr (fst (customize heap_xy 0 (Ref 1))) 6 ''x'' = Some (PyInt 1)
   \<and> getattr (fst (customize heap_xy 0 (Ref 1))) 6 ''y'' = Some (PyInt 99)
   \<and> snd (customize heap_xy 0 (Ref 3)) = Inr 6
   \<and> getattr (fst (customize heap_xy 0 (Ref 3))) 6 ''x'' = Some (PyInt 1)
   \<and> getattr (fst (customize heap_xy 0 (Ref 3))) 6 ''y'' = Some (PyInt 5)"
proof -
  have self: "0 < length heap_xy"
    "heap_xy ! 0 = PyModel [''x'', ''y''] [] [(''x'', PyInt 1), (''y'', PyInt 2)]"
    by (simp_all add: heap_xy_def)
  have len: "length heap_xy + 0 = 6"
    by (simp add: heap_xy_def)
  have node: "1 < length heap_xy"
    "heap_xy ! 1 = PyModel [''x'', ''y''] [] [(''x'', PyInt 1), (''y'', PyInt 99)]
       \<and> set [''x'', ''y''] \<subseteq> fst ` set [(''x'', PyInt 1), (''y'', PyInt 99)]
       \<and> set [''x'', ''y''] \<subseteq> set [''x'', ''y'']"
    by (simp_all add: heap_xy_def)
  from customize_applies_overrides [OF self node(1)] node(2)
  have n: "snd (customize heap_xy 0 (Ref 1)) = Inr (length heap_xy + 0)
      \<and> (\<forall>f \<in> set [''x'', ''y''].
            getattr (fst (customize heap_xy 0 (Ref 1))) (length heap_xy + 0) f
              = getattr heap_xy 1 f)"
    by blast
  have items: "3 < length heap_xy"
    "heap_xy ! 3 = PyDict [(''y'', PyInt 5), (''x'', PyNone)]
       \<and> distinct (map fst [(''y'', PyInt 5), (''x'', PyNone)])
       \<and> (\<forall>(k, v) \<in> set [(''y'', PyInt 5), (''x'', PyNone)]. v = PyNone \<or> k \<in> set [''x'', ''y''])"
    by (simp_all add: heap_xy_def)
  from customize_applies_overrides [OF self items(1)] items(2)
  have d: "snd (customize heap_xy 0 (Ref 3)) = Inr (length heap_xy + 0)
      \<and> (\<forall>(k, v) \<in> set [(''y'', PyInt 5), (''x'', PyNone)].
            getattr (fst (customize heap_xy 0 (Ref 3))) (length heap_xy + 0) k
              = (if v = PyNone then map_option (shift_val (length heap_xy)) (getattr heap_xy 0 k)
                 else Some v))"
    by blast
  have get: "getattr heap_xy 1 ''x'' = Some (PyInt 1)" "getattr heap_xy 1 ''y'' = Some (PyInt 99)"
    "getattr heap_xy 0 ''x'' = Some (PyInt 1)"
    by (simp_all add: getattr_def deref_def heap_xy_def)
  show ?thesis
    using n d get unfolding len by simp
qed

section \<open>The copy\<close>

lemma wf_heap_refs:
  "wf_heap h \<Longrightarrow> a < length h \<Longrightarrow> b \<in> set (refs_of (h ! a)) \<Longrightarrow> b < length h"
  by (auto simp: wf_heap_def list_all_iff)

lemma val_refs_in_refs_of_model:
  "(k, v) \<in> set d \<Longrightarrow> b \<in> set (val_refs v) \<Longrightarrow> b \<in> set (refs_of (PyModel fs ps d))"
  by force

lemma val_refs_in_refs_of_dict:
  "(k, v) \<in> set d \<Longrightarrow> b \<in> set (val_refs v) \<Longrightarrow> b \<in> set (refs_of (PyDict d))"
  by force

lemma val_refs_in_refs_of_list:
  "v \<in> set xs \<Longrightarrow> b \<in> set (val_refs v) \<Longrightarrow> b \<in> set (refs_of (PyList xs))"
  by force

lemma val_refs_shift: "set (val_refs (shift_val n v)) = (\<lambda>a. n + a) ` set (val_refs v)"
  by (cases v) simp_all

lemma refs_of_pairs_shift:
  "set (concat (map (\<lambda>(k, v). val_refs v) (map (\<lambda>(k, v). (k, shift_val n v)) d)))
     = (\<lambda>a. n + a) ` set (concat (map (\<lambda>(k, v). val_refs v) d))"
  by (induction d) (auto simp: val_refs_shift image_Un)

lemma refs_of_vals_shift:
  "set (concat (map val_refs (map (shift_val n) xs)))
     = (\<lambda>a. n + a) ` set (concat (map val_refs xs))"
  by (induction xs) (auto simp: val_refs_shift image_Un)

lemma refs_of_shift: "set (refs_of (shift_obj n obj)) = (\<lambda>a. n + a) ` set (refs_of obj)"
proof (cases obj)
  case (PyModel fs ps d)
  then show ?thesis using refs_of_pairs_shift [of n d] by simp
next
  case (PyDict d)
  then show ?thesis using refs_of_pairs_shift [of n d] by simp
next
  case (PyList xs)
  then show ?thesis using refs_of_vals_shift [of n xs] by simp
qed

lemma list_all2_pairs_shift:
  assumes "\<And>k v. (k, v) \<in> set d \<Longrightarrow> R v (shift_val n v)"
  shows "list_all2 (\<lambda>(k, v) (k', v'). k = k' \<and> R v v') d (map (\<lambda>(k, v). (k, shift_val n v)) d)"
  using assms by (induction d) auto

lemma list_all2_vals_shift:
  assumes "\<And>v. v \<in> set xs \<Longrightarrow> R v (shift_val n v)"
  shows "list_all2 R xs (map (shift_val n) xs)"
  using assms by (induction xs) auto

lemma obj_rel_shift:
  assumes "\<And>v. set (val_refs v) \<subseteq> set (refs_of obj) \<Longrightarrow> R v (shift_val n v)"
  shows "obj_rel R obj (shift_obj n obj)"
proof (cases obj)
  case (PyModel fs ps d)
  have "R v (shift_val n v)" if "(k, v) \<in> set d" for k v
    using that PyModel by (intro assms) (auto intro: val_refs_in_refs_of_model)
  then show ?thesis
    using PyModel by (simp add: list_all2_pairs_shift)
next
  case (PyDict d)
  have "R v (shift_val n v)" if "(k, v) \<in> set d" for k v
    using that PyDict by (intro assms) (auto intro: val_refs_in_refs_of_dict)
  then show ?thesis
    using PyDict by (simp add: list_all2_pairs_shift)
next
  case (PyList xs)
  have "R v (shift_val n v)" if "v \<in> set xs" for v
    using that PyList by (intro assms) (auto intro: val_refs_in_refs_of_list)
  then show ?thesis
    using PyList by (simp add: list_all2_vals_shift)
qed

lemma deep_eq_copy:
  assumes "wf_heap h" and "\<forall>a \<in> set (val_refs v). a < length h"
  shows "deep_eq k (h @ map (shift_obj (length h)) h) v (shift_val (length h) v)"
  using assms(2)
proof (induction k arbitrary: v)
  case 0
  then show ?case by (cases v) simp_all
next
  case (Suc k)
  let ?n = "length h"
  let ?h1 = "h @ map (shift_obj ?n) h"
  show ?case
  proof (cases v)
    case (Ref a)
    with Suc.prems have a: "a < ?n" by simp
    have "deep_eq k ?h1 u (shift_val ?n u)" if "set (val_refs u) \<subseteq> set (refs_of (h ! a))" for u
      using that a assms(1) by (intro Suc.IH) (auto dest: wf_heap_refs)
    then have "obj_rel (deep_eq k ?h1) (h ! a) (shift_obj ?n (h ! a))"
      by (rule obj_rel_shift)
    then show ?thesis
      using Ref a by (simp add: deref_def nth_append)
  qed simp_all
qed

lemma reach_copy_new:
  assumes "wf_heap h" and "self < length h"
    and "reach (h @ map (shift_obj (length h)) h) (length h + self) a"
  shows "length h \<le> a \<and> a < 2 * length h"
  using assms(3)
proof (induction rule: reach.induct)
  case reach_self
  then show ?case using assms(2) by simp
next
  case (reach_step b c)
  let ?n = "length h"
  from reach_step.IH obtain b' where b': "b = ?n + b'" "b' < ?n"
    by (metis le_Suc_ex add_less_cancel_left mult_2)
  then have "(h @ map (shift_obj ?n) h) ! b = shift_obj ?n (h ! b')"
    by (simp add: nth_append)
  with reach_step.hyps obtain c' where c': "c = ?n + c'" "c' \<in> set (refs_of (h ! b'))"
    by (auto simp: refs_of_shift)
  then have "c' < ?n"
    using assms(1) b'(2) by (auto dest: wf_heap_refs)
  then show ?case using c'(1) by simp
qed

lemma reach_copy_old:
  assumes "wf_heap h" and "self < length h"
    and "reach (h @ map (shift_obj (length h)) h) self b"
  shows "b < length h"
  using assms(3)
proof (induction rule: reach.induct)
  case reach_self
  then show ?case using assms(2) by simp
next
  case (reach_step b c)
  then have "c \<in> set (refs_of (h ! b))" by (simp add: nth_append)
  then show ?case
    using assms(1) reach_step.IH by (auto dest: wf_heap_refs)
qed

text \<open>
  Claim C4. \<^verbatim>\<open>customize\<close> leaves every object that existed before the call as it was,
  whatever the override and whether or not it raises. With no override (\<^verbatim>\<open>None\<close> or the
  empty dictionary) on a heap without dangling references it returns a model that is
  deeply equal to the base at every depth and shares no object with it: no object
  reachable from the result is reachable from the base, so that overwriting any object
  reachable from the result leaves every object reachable from the base as it was before
  the call.
\<close>

theorem customize_without_overrides:
  "(\<forall>settings. take (length h) (fst (customize h self settings)) = h)
   \<and> (wf_heap h \<and> self < length h
        \<and> (custom = PyNone \<or> (\<exists>e. custom = Ref e \<and> deref h e = Some (PyDict []))) \<longrightarrow>
      snd (customize h self custom) = Inr (length h + self)
      \<and> (\<forall>k. deep_eq k (fst (customize h self custom)) (Ref self) (Ref (length h + self)))
      \<and> (\<forall>a. reach (fst (customize h self custom)) (length h + self) a \<longrightarrow>
             \<not> reach (fst (customize h self custom)) self a)
      \<and> (\<forall>a b obj. reach (fst (customize h self custom)) (length h + self) a
             \<and> reach (fst (customize h self custom)) self b \<longrightarrow>
             ((fst (customize h self custom))[a := obj]) ! b = h ! b))"
proof (intro conjI allI impI)
  fix settings
  show "take (length h) (fst (customize h self settings)) = h"
    by (simp add: customize_take)
next
  let ?n = "length h"
  let ?h1 = "h @ map (shift_obj ?n) h"
  assume a: "wf_heap h \<and> self < length h
      \<and> (custom = PyNone \<or> (\<exists>e. custom = Ref e \<and> deref h e = Some (PyDict [])))"
  then have res: "customize h self custom = (?h1, Inr (?n + self))"
    by (intro customize_nothing) simp
  show "snd (customize h self custom) = Inr (?n + self)"
    by (simp add: res)
  {
    fix k
    have "deep_eq k ?h1 (Ref self) (shift_val ?n (Ref self))"
      using a by (intro deep_eq_copy) simp_all
    then show "deep_eq k (fst (customize h self custom)) (Ref self) (Ref (?n + self))"
      by (simp add: res)
  }
  {
    fix c
    assume "reach (fst (customize h self custom)) (?n + self) c"
    then have "?n \<le> c"
      using a reach_copy_new [of h self c] by (simp add: res)
    moreover have "c < ?n" if "reach ?h1 self c"
      using a that by (intro reach_copy_old [of h self c]) simp_all
    ultimately have "\<not> reach ?h1 self c"
      by (meson not_le)
    then show "\<not> reach (fst (customize h self custom)) self c"
      by (simp add: res)
  }
  {
    fix c b obj
    assume r: "reach (fst (customize h self custom)) (?n + self) c
        \<and> reach (fst (customize h self custom)) self b"
    then have "?n \<le> c"
      using a reach_copy_new [of h self c] by (simp add: res)
    moreover have "b < ?n"
      using a r reach_copy_old [of h self b] by (simp add: res)
    ultimately show "((fst (customize h self custom))[c := obj]) ! b = h ! b"
      by (simp add: res nth_append)
  }
qed

text \<open>C4 on \<open>heap_nested\<close>, whose base holds a list that holds a dictionary.\<close>

theorem customize_without_overrides_witness:
  "wf_heap heap_nested \<and> 0 < length heap_nested \<and> deref heap_nested 3 = Some (PyDict [])
   \<and> take 4 (fst (customize heap_nested 0 (Ref 1))) = heap_nested
   \<and> snd (customize heap_nested 0 (Ref 3)) = Inr 4
   \<and> deep_eq 3 (fst (customize heap_nested 0 (Ref 3))) (Ref 0) (Ref 4)
   \<and> \<not> reach (fst (customize heap_nested 0 (Ref 3))) 0 4
   \<and> (\<forall>obj. ((fst (customize heap_nested 0 (Ref 3)))[4 := obj]) ! 0 = heap_nested ! 0)"
proof -
  have hyp: "wf_heap heap_nested \<and> 0 < length heap_nested
      \<and> (Ref 3 = PyNone \<or> (\<exists>e. Ref 3 = Ref e \<and> deref heap_nested e = Some (PyDict [])))"
    by (simp add: heap_nested_def wf_heap_def deref_def)
  have len: "length heap_nested = 4"
    by (simp add: heap_nested_def)
  note th = customize_without_overrides [of heap_nested 0 "Ref 3"]
  from th have "\<forall>settings. take (length heap_nested) (fst (customize heap_nested 0 settings))
      = heap_nested"
    by (rule conjunct1)
  then have 1: "take 4 (fst (customize heap_nested 0 (Ref 1))) = heap_nested"
    by (simp add: len)
  from th hyp have c: "snd (customize heap_nested 0 (Ref 3)) = Inr (length heap_nested + 0)"
    "\<forall>k. deep_eq k (fst (customize heap_nested 0 (Ref 3))) (Ref 0) (Ref (length heap_nested + 0))"
    "\<forall>a. reach (fst (customize heap_nested 0 (Ref 3))) (length heap_nested + 0) a \<longrightarrow>
             \<not> reach (fst (customize heap_nested 0 (Ref 3))) 0 a"
    "\<forall>a b obj. reach (fst (customize heap_nested 0 (Ref 3))) (length heap_nested + 0) a
             \<and> reach (fst (customize heap_nested 0 (Ref 3))) 0 b \<longrightarrow>
             ((fst (customize heap_nested 0 (Ref 3)))[a := obj]) ! b = heap_nested ! b"
    by blast+
  have r4: "reach (fst (customize heap_nested 0 (Ref 3))) (length heap_nested + 0)
      (length heap_nested + 0)"
    and r0: "reach (fst (customize heap_nested 0 (Ref 3))) 0 0"
    by (rule reach_self)+
  from c(3) r4 have "\<not> reach (fst (customize heap_nested 0 (Ref 3))) 0 (length heap_nested + 0)"
    by blast
  then have 3: "\<not> reach (fst (customize heap_nested 0 (Ref 3))) 0 4"
    by (simp add: len)
  from c(4) r4 r0 have "\<forall>obj. ((fst (customize heap_nested 0 (Ref 3)))
      [length heap_nested + 0 := obj]) ! 0 = heap_nested ! 0"
    by blast
  then have 4: "\<forall>obj. ((fst (customize heap_nested 0 (Ref 3)))[4 := obj]) ! 0 = heap_nested ! 0"
    by (simp add: len)
  from c(2) have "deep_eq 3 (fst (customize heap_nested 0 (Ref 3))) (Ref 0)
      (Ref (length heap_nested + 0))"
    by blast
  then have 2: "deep_eq 3 (fst (customize heap_nested 0 (Ref 3))) (Ref 0) (Ref 4)"
    by (simp add: len)
  from c(1) have 5: "snd (customize heap_nested 0 (Ref 3)) = Inr 4"
    by (simp add: len)
  have 6: "wf_heap heap_nested \<and> 0 < length heap_nested
      \<and> deref heap_nested 3 = Some (PyDict [])"
    by (simp add: heap_nested_def wf_heap_def deref_def)
  show ?thesis
    using 1 2 3 4 5 6 by blast
qed

end
